theory Spec2Isabelle
  imports Complex_Main
begin

section \<open>Falling Rocks: the simulation core of \<open>src/App.tsx\<close>\<close>

text \<open>
  The file \<open>src/App.tsx\<close> holds two revisions of the component; the second one (with the
  responsive geometry of \<open>useGameDimensions\<close>) is the one embedded here.  The first
  revision is the special case of a fixed 800 x 600 geometry.

  JavaScript numbers are IEEE 754 doubles.  The arithmetic of the dimension provider
  and of the x position and fall speed of a spawned object is modelled in double
  precision: every operation there is the exact operation followed by the rounding
  \<open>fl\<close> to the nearest double.  The category index, the movement of player and objects
  under the tick and the collision test are computed over exact \<^typ>\<open>real\<close> numbers; the
  counters \<open>score\<close> and \<open>lives\<close> and the clock \<open>Date.now()\<close> are \<^typ>\<open>int\<close>, and the id
  counter is a \<^typ>\<open>nat\<close>.  React state and refs become the fields of one state record
  that every handler takes and returns; state updater functions run in the order in
  which the source enqueues them.
\<close>

subsection \<open>Double-precision rounding\<close>

text \<open>
  \<open>pow2 e\<close> is the power of two with an integer exponent, \<open>roundEven\<close> rounds to the
  nearest integer with ties to the even one, and \<open>binade x\<close> is the exponent of the
  power of two at or below \<open>\<bar>x\<bar>\<close>.  \<open>fl x\<close> is the double nearest to \<open>x\<close>, ties to even:
  the multiple of \<open>pow2 (binade x - 52)\<close> nearest to \<open>x\<close>, which has a significand of 53
  bits.  The exponent is not bounded: overflow and subnormal numbers, far from every
  value of this program, are not modelled.
\<close>

definition pow2 :: "int \<Rightarrow> real" where
  "pow2 e = (if 0 \<le> e then 2 ^ nat e else 1 / 2 ^ nat (- e))"

definition roundEven :: "real \<Rightarrow> int" where
  "roundEven y =
     (let f = \<lfloor>y\<rfloor>; d = y - of_int f
      in if d < 1 / 2 then f else if 1 / 2 < d then f + 1 else if even f then f else f + 1)"

definition binade :: "real \<Rightarrow> int" where
  "binade x = \<lfloor>log 2 \<bar>x\<bar>\<rfloor>"

definition fl :: "real \<Rightarrow> real" where
  "fl x =
     (if x = 0 then 0
      else let e = binade x - 52
           in sgn x * of_int (roundEven (\<bar>x\<bar> / pow2 e)) * pow2 e)"

subsection \<open>Data model\<close>

datatype ObjType = rock | coin | star | gem

text \<open>
  \<open>interface GameObject\<close>.  The field \<open>type\<close> is an option: \<open>None\<close> stands for the
  JavaScript value \<open>undefined\<close> that an out-of-range read of the table \<open>types\<close> gives.
  The fields \<open>id, x, y, type\<close> carry the prefix \<open>o\<close>.
\<close>

record GameObject =
  oid :: nat
  ox :: real
  oy :: real
  speed :: real
  otype :: "ObjType option"

text \<open>\<open>interface Player\<close>, fields with the prefix \<open>p\<close>.\<close>

record Player =
  px :: real
  py :: real
  pwidth :: real
  pheight :: real

text \<open>\<open>interface GameDimensions\<close> without the presentation-only \<open>fontSize\<close>.\<close>

record GameDimensions =
  width :: real
  height :: real
  playerSize :: real
  objectSize :: real
  playerSpeed :: real

datatype Direction = dir_left | dir_right

text \<open>
  The state of \<open>App\<close>: the \<open>useState\<close> cells and the refs \<open>objectIdRef\<close> and
  \<open>lastSpawnRef\<close>.  The cell \<open>dims\<close> and the ref \<open>dimsRef\<close> that an effect keeps equal to
  it are one field.
\<close>

record GameState =
  dims :: GameDimensions
  gameStarted :: bool
  gameOver :: bool
  score :: int
  lives :: int
  player :: Player
  objects :: "GameObject list"
  keys :: "string set"
  touchDirection :: "Direction option"
  objectIdRef :: nat
  lastSpawnRef :: int

definition BASE_WIDTH :: real where "BASE_WIDTH = 800"
definition BASE_HEIGHT :: real where "BASE_HEIGHT = 600"
definition BASE_PLAYER_SIZE :: real where "BASE_PLAYER_SIZE = 40"
definition BASE_OBJECT_SIZE :: real where "BASE_OBJECT_SIZE = 30"
definition BASE_PLAYER_SPEED :: real where "BASE_PLAYER_SPEED = 8"
definition MIN_WIDTH :: real where "MIN_WIDTH = 280"
definition MIN_HEIGHT :: real where "MIN_HEIGHT = 200"
definition MIN_SCALE :: real where "MIN_SCALE = fl 0.35"

subsection \<open>Dimension provider\<close>

text \<open>
  The local \<open>scale\<close> of \<open>calculateDimensions\<close>, as a function of \<open>window.innerWidth\<close> and
  \<open>window.innerHeight\<close>.  The literals \<open>0.6\<close> and \<open>0.35\<close> are the doubles nearest to them.
\<close>

definition scale_of :: "real \<Rightarrow> real \<Rightarrow> real" where
  "scale_of innerWidth innerHeight =
     (let availableWidth = fl (innerWidth - 16);
          availableHeight = fl (innerHeight * fl 0.6);
          widthScale = fl (availableWidth / BASE_WIDTH);
          heightScale = fl (availableHeight / BASE_HEIGHT);
          rawScale = min (min widthScale heightScale) 1
      in max rawScale MIN_SCALE)"

definition calculateDimensions :: "real \<Rightarrow> real \<Rightarrow> GameDimensions" where
  "calculateDimensions innerWidth innerHeight =
     (let availableWidth = fl (innerWidth - 16);
          scale = scale_of innerWidth innerHeight
      in \<lparr> width = max MIN_WIDTH
                     (min (of_int \<lfloor>fl (BASE_WIDTH * scale)\<rfloor>) availableWidth),
           height = max MIN_HEIGHT (of_int \<lfloor>fl (BASE_HEIGHT * scale)\<rfloor>),
           playerSize = max 20 (of_int \<lfloor>fl (BASE_PLAYER_SIZE * scale)\<rfloor>),
           objectSize = max 16 (of_int \<lfloor>fl (BASE_OBJECT_SIZE * scale)\<rfloor>),
           playerSpeed = max 3 (fl (BASE_PLAYER_SPEED * scale)) \<rparr>)"

text \<open>
  The scale as section 4.1 of the specification words it, over the usable width and
  the viewport height, each operation in double precision.
\<close>

definition spec_scale :: "real \<Rightarrow> real \<Rightarrow> real" where
  "spec_scale availableWidth availableHeight =
     max MIN_SCALE (min (min (fl (availableWidth / BASE_WIDTH))
                             (fl (fl (availableHeight * fl 0.6) / BASE_HEIGHT))) 1)"

subsection \<open>Session commands\<close>

text \<open>The player rectangle that \<open>useState\<close>, the re-centering effect and \<open>startGame\<close> build.\<close>

definition centeredPlayer :: "GameDimensions \<Rightarrow> Player" where
  "centeredPlayer d =
     \<lparr> px = width d / 2 - playerSize d / 2,
       py = height d - playerSize d - 20,
       pwidth = playerSize d,
       pheight = playerSize d \<rparr>"

text \<open>The state at mount, for a viewport of the given inner width and height.\<close>

definition initialState :: "real \<Rightarrow> real \<Rightarrow> GameState" where
  "initialState innerWidth innerHeight =
     (let d = calculateDimensions innerWidth innerHeight
      in \<lparr> dims = d, gameStarted = False, gameOver = False, score = 0, lives = 3,
           player = centeredPlayer d, objects = [], keys = {}, touchDirection = None,
           objectIdRef = 0, lastSpawnRef = 0 \<rparr>)"

text \<open>\<open>startGame\<close>; the argument \<open>now\<close> is the value of \<open>Date.now()\<close>.\<close>

definition startGame :: "int \<Rightarrow> GameState \<Rightarrow> GameState" where
  "startGame now s =
     s\<lparr> gameStarted := True, gameOver := False, score := 0, lives := 3, objects := [],
        player := centeredPlayer (dims s), lastSpawnRef := now \<rparr>"

text \<open>
  \<open>handleResize\<close> followed by the two effects on \<open>dims\<close>: the snapshot is replaced, and
  the player is re-centered only while the session has not started.
\<close>

definition handleResize :: "real \<Rightarrow> real \<Rightarrow> GameState \<Rightarrow> GameState" where
  "handleResize innerWidth innerHeight s =
     (let d = calculateDimensions innerWidth innerHeight;
          s1 = s\<lparr> dims := d \<rparr>
      in if \<not> gameStarted s then s1\<lparr> player := centeredPlayer d \<rparr> else s1)"

definition handleKeyDown :: "string \<Rightarrow> GameState \<Rightarrow> GameState" where
  "handleKeyDown k s = s\<lparr> keys := insert k (keys s) \<rparr>"

definition handleKeyUp :: "string \<Rightarrow> GameState \<Rightarrow> GameState" where
  "handleKeyUp k s = s\<lparr> keys := keys s - {k} \<rparr>"

definition handleTouchStart :: "Direction \<Rightarrow> GameState \<Rightarrow> GameState" where
  "handleTouchStart direction s = s\<lparr> touchDirection := Some direction \<rparr>"

definition handleTouchEnd :: "GameState \<Rightarrow> GameState" where
  "handleTouchEnd s = s\<lparr> touchDirection := None \<rparr>"

text \<open>The phase that the interface shows, from the two flags.\<close>

datatype Phase = NotStarted | Running | GameOver

definition phase :: "GameState \<Rightarrow> Phase" where
  "phase s = (if \<not> gameStarted s then NotStarted else if gameOver s then GameOver else Running)"

subsection \<open>Spawner\<close>

definition types :: "ObjType list" where
  "types = [rock, rock, coin, star, gem]"

text \<open>\<open>types[Math.floor(r * types.length)]\<close> for a draw \<open>r\<close> of \<open>Math.random()\<close>.\<close>

definition pickType :: "real \<Rightarrow> ObjType option" where
  "pickType r =
     (let i = \<lfloor>r * of_nat (length types)\<rfloor>
      in if 0 \<le> i \<and> i < int (length types) then Some (types ! nat i) else None)"

definition baseSpeed :: "ObjType option \<Rightarrow> real \<Rightarrow> real" where
  "baseSpeed ty r = (if ty = Some rock then fl (3 + fl (r * 2)) else fl (2 + fl (r * 1.5)))"

text \<open>
  The object that \<open>spawnObject\<close> builds from three successive draws of \<open>Math.random()\<close>
  (type, speed, x), the current geometry and the id counter.
\<close>

definition newObject :: "real \<Rightarrow> real \<Rightarrow> real \<Rightarrow> GameDimensions \<Rightarrow> nat \<Rightarrow> GameObject" where
  "newObject r1 r2 r3 currentDims n =
     (let ty = pickType r1;
          scaledSpeed = fl (baseSpeed ty r2 * fl (height currentDims / BASE_HEIGHT))
      in \<lparr> oid = n,
           ox = fl (r3 * fl (width currentDims - objectSize currentDims)),
           oy = - objectSize currentDims,
           speed = scaledSpeed,
           otype = ty \<rparr>)"

definition spawnObject :: "real \<Rightarrow> real \<Rightarrow> real \<Rightarrow> GameState \<Rightarrow> GameState" where
  "spawnObject r1 r2 r3 s =
     s\<lparr> objects := objects s @ [newObject r1 r2 r3 (dims s) (objectIdRef s)],
        objectIdRef := Suc (objectIdRef s) \<rparr>"

text \<open>The spawn block at the head of \<open>gameLoop\<close>.\<close>

definition trySpawn :: "int \<Rightarrow> real \<Rightarrow> real \<Rightarrow> real \<Rightarrow> GameState \<Rightarrow> GameState" where
  "trySpawn now r1 r2 r3 s =
     (if now - lastSpawnRef s > 1000
      then (spawnObject r1 r2 r3 s)\<lparr> lastSpawnRef := now \<rparr>
      else s)"

subsection \<open>Kinematics and collision\<close>

definition checkCollision :: "GameDimensions \<Rightarrow> GameObject \<Rightarrow> Player \<Rightarrow> bool" where
  "checkCollision currentDims obj plr \<longleftrightarrow>
     ox obj < px plr + pwidth plr \<and>
     ox obj + objectSize currentDims > px plr \<and>
     oy obj < py plr + pheight plr \<and>
     oy obj + objectSize currentDims > py plr"

definition isMovingLeft :: "GameState \<Rightarrow> bool" where
  "isMovingLeft s \<longleftrightarrow>
     ''ArrowLeft'' \<in> keys s \<or> ''a'' \<in> keys s \<or> ''A'' \<in> keys s \<or>
     touchDirection s = Some dir_left"

definition isMovingRight :: "GameState \<Rightarrow> bool" where
  "isMovingRight s \<longleftrightarrow>
     ''ArrowRight'' \<in> keys s \<or> ''d'' \<in> keys s \<or> ''D'' \<in> keys s \<or>
     touchDirection s = Some dir_right"

text \<open>The updater passed to \<open>setPlayer\<close>: left clamp first, then right clamp.\<close>

definition movePlayer :: "GameState \<Rightarrow> Player \<Rightarrow> Player" where
  "movePlayer s prev =
     (let currentDims = dims s;
          newX = px prev;
          newX = (if isMovingLeft s then max 0 (px prev - playerSpeed currentDims) else newX);
          newX = (if isMovingRight s
                  then min (width currentDims - playerSize currentDims)
                           (px prev + playerSpeed currentDims)
                  else newX)
      in prev\<lparr> px := newX \<rparr>)"

text \<open>The \<open>map\<close> and \<open>filter\<close> that build \<open>updated\<close>.\<close>

definition fall :: "GameObject \<Rightarrow> GameObject" where
  "fall obj = obj\<lparr> oy := oy obj + speed obj \<rparr>"

definition updated :: "GameDimensions \<Rightarrow> GameObject list \<Rightarrow> GameObject list" where
  "updated currentDims prev = filter (\<lambda>obj. oy obj < height currentDims) (map fall prev)"

text \<open>
  The updater passed to \<open>setLives\<close> for a colliding rock, with the \<open>setGameOver(true)\<close>
  that it issues.
\<close>

definition loseLife :: "GameState \<Rightarrow> GameState" where
  "loseLife s =
     (let newLives = lives s - 1;
          s1 = (if newLives \<le> 0 then s\<lparr> gameOver := True \<rparr> else s)
      in s1\<lparr> lives := newLives \<rparr>)"

text \<open>The outcome of one collision, by the type of the object.\<close>

definition applyOutcome :: "ObjType option \<Rightarrow> GameState \<Rightarrow> GameState" where
  "applyOutcome ty s =
     (if ty = Some rock then loseLife s
      else if ty = Some coin then s\<lparr> score := score s + 10 \<rparr>
      else if ty = Some star then s\<lparr> score := score s + 25 \<rparr>
      else if ty = Some gem then s\<lparr> score := score s + 50 \<rparr>
      else s)"

text \<open>
  The body of \<open>updated.forEach\<close>: the state threads the queued updates of \<open>lives\<close>,
  \<open>gameOver\<close> and \<open>score\<close>, the list is \<open>remaining\<close>.
\<close>

fun forEach :: "GameDimensions \<Rightarrow> Player \<Rightarrow> GameObject list \<Rightarrow>
    GameState \<times> GameObject list \<Rightarrow> GameState \<times> GameObject list" where
  "forEach currentDims currentPlayer [] acc = acc"
| "forEach currentDims currentPlayer (obj # rest) (s, remaining) =
     forEach currentDims currentPlayer rest
       (if checkCollision currentDims obj currentPlayer
        then (applyOutcome (otype obj) s, remaining)
        else (s, remaining @ [obj]))"

subsection \<open>The tick\<close>

text \<open>
  \<open>gameLoop\<close> for the clock value \<open>now\<close>; \<open>r1\<close>, \<open>r2\<close>, \<open>r3\<close> are the draws of
  \<open>Math.random()\<close> that a spawn on this tick consumes.
\<close>

definition gameLoop :: "int \<Rightarrow> real \<Rightarrow> real \<Rightarrow> real \<Rightarrow> GameState \<Rightarrow> GameState" where
  "gameLoop now r1 r2 r3 s =
     (if \<not> gameStarted s \<or> gameOver s then s
      else
        let currentDims = dims s;
            s1 = trySpawn now r1 r2 r3 s;
            currentPlayer = movePlayer s1 (player s1);
            s2 = s1\<lparr> player := currentPlayer \<rparr>;
            (s3, remaining) = forEach currentDims currentPlayer
                                (updated currentDims (objects s2)) (s2, [])
        in s3\<lparr> objects := remaining \<rparr>)"

text \<open>A run of ticks, one entry \<open>(now, r1, r2, r3)\<close> per tick.\<close>

fun ticks :: "(int \<times> real \<times> real \<times> real) list \<Rightarrow> GameState \<Rightarrow> GameState" where
  "ticks [] s = s"
| "ticks ((now, r1, r2, r3) # rest) s = ticks rest (gameLoop now r1 r2 r3 s)"

text \<open>
  The events of a session, what each does to the state, and a run of events.  \<open>Start\<close>
  is the start and restart command.
\<close>

datatype Event =
  Tick int real real real
| Resize real real
| KeyDown string
| KeyUp string
| TouchStart Direction
| TouchEnd
| Start int

fun applyEvent :: "Event \<Rightarrow> GameState \<Rightarrow> GameState" where
  "applyEvent (Tick now r1 r2 r3) s = gameLoop now r1 r2 r3 s"
| "applyEvent (Resize innerWidth innerHeight) s = handleResize innerWidth innerHeight s"
| "applyEvent (KeyDown k) s = handleKeyDown k s"
| "applyEvent (KeyUp k) s = handleKeyUp k s"
| "applyEvent (TouchStart direction) s = handleTouchStart direction s"
| "applyEvent TouchEnd s = handleTouchEnd s"
| "applyEvent (Start now) s = startGame now s"

fun runEvents :: "Event list \<Rightarrow> GameState \<Rightarrow> GameState" where
  "runEvents [] s = s"
| "runEvents (e # es) s = runEvents es (applyEvent e s)"

fun isStart :: "Event \<Rightarrow> bool" where
  "isStart (Start now) = True"
| "isStart e = False"

subsection \<open>Observers used by the properties\<close>

text \<open>
  The score that section 4.4 of the specification attaches to an outcome; a rock and
  an undefined type score nothing.
\<close>

definition points :: "ObjType option \<Rightarrow> int" where
  "points ty = (if ty = Some coin then 10 else if ty = Some star then 25
                else if ty = Some gem then 50 else 0)"

text \<open>The objects of a list that overlap the player, and those that do not.\<close>

definition hits :: "GameDimensions \<Rightarrow> Player \<Rightarrow> GameObject list \<Rightarrow> GameObject list" where
  "hits d p xs = filter (\<lambda>obj. checkCollision d obj p) xs"

definition misses :: "GameDimensions \<Rightarrow> Player \<Rightarrow> GameObject list \<Rightarrow> GameObject list" where
  "misses d p xs = filter (\<lambda>obj. \<not> checkCollision d obj p) xs"

definition rocks :: "GameObject list \<Rightarrow> int" where
  "rocks hs = int (length (filter (\<lambda>obj. otype obj = Some rock) hs))"

definition gain :: "GameObject list \<Rightarrow> int" where
  "gain hs = sum_list (map (\<lambda>obj. points (otype obj)) hs)"

text \<open>The outcomes of a list of colliding objects, applied in order.\<close>

definition resolve :: "GameState \<Rightarrow> GameObject list \<Rightarrow> GameState" where
  "resolve s hs = foldl (\<lambda>s obj. applyOutcome (otype obj) s) s hs"

text \<open>The objects that collide on the tick \<open>gameLoop now r1 r2 r3 s\<close>.\<close>

definition tickHits :: "int \<Rightarrow> real \<Rightarrow> real \<Rightarrow> real \<Rightarrow> GameState \<Rightarrow> GameObject list" where
  "tickHits now r1 r2 r3 s =
     (let s1 = trySpawn now r1 r2 r3 s
      in hits (dims s) (movePlayer s1 (player s1)) (updated (dims s) (objects s1)))"

text \<open>The objects that survive the tick \<open>gameLoop now r1 r2 r3 s\<close>.\<close>

definition tickMisses :: "int \<Rightarrow> real \<Rightarrow> real \<Rightarrow> real \<Rightarrow> GameState \<Rightarrow> GameObject list" where
  "tickMisses now r1 r2 r3 s =
     (let s1 = trySpawn now r1 r2 r3 s
      in misses (dims s) (movePlayer s1 (player s1)) (updated (dims s) (objects s1)))"

text \<open>The player's x lies in the field of the current geometry.\<close>

definition contained :: "GameState \<Rightarrow> bool" where
  "contained s \<longleftrightarrow>
     0 \<le> px (player s) \<and> px (player s) \<le> width (dims s) - playerSize (dims s)"


text \<open>
  The states of a session: the state at mount, and what the handlers and the tick make
  of a state.  The draws of \<open>Math.random()\<close> lie in \<open>[0, 1)\<close>.  The start command is taken
  in every phase.
\<close>

inductive reachable :: "GameState \<Rightarrow> bool" where
  mount: "reachable (initialState innerWidth innerHeight)"
| start: "reachable s \<Longrightarrow> reachable (startGame now s)"
| tick: "reachable s \<Longrightarrow> 0 \<le> r1 \<Longrightarrow> r1 < 1 \<Longrightarrow> 0 \<le> r2 \<Longrightarrow> r2 < 1 \<Longrightarrow> 0 \<le> r3 \<Longrightarrow> r3 < 1
         \<Longrightarrow> reachable (gameLoop now r1 r2 r3 s)"
| resize: "reachable s \<Longrightarrow> reachable (handleResize innerWidth innerHeight s)"
| keyDown: "reachable s \<Longrightarrow> reachable (handleKeyDown k s)"
| keyUp: "reachable s \<Longrightarrow> reachable (handleKeyUp k s)"
| touchStart: "reachable s \<Longrightarrow> reachable (handleTouchStart direction s)"
| touchEnd: "reachable s \<Longrightarrow> reachable (handleTouchEnd s)"

subsection \<open>Invariants and idle ticks\<close>

text \<open>
  What every reachable state satisfies about lives and flags: at most three lives, the
  session is over exactly when no life is left, and only a started session is over.
\<close>

definition livesInv :: "GameState \<Rightarrow> bool" where
  "livesInv s \<longleftrightarrow> lives s \<le> 3 \<and> (gameOver s \<longleftrightarrow> lives s \<le> 0) \<and> (gameOver s \<longrightarrow> gameStarted s)"

text \<open>
  What every reachable state satisfies about the player: its x is not negative, the
  geometry is one that \<open>calculateDimensions\<close> returns, and before the start the player
  is centered in it.
\<close>

definition playerInv :: "GameState \<Rightarrow> bool" where
  "playerInv s \<longleftrightarrow>
     0 \<le> px (player s) \<and>
     (\<exists>w h. dims s = calculateDimensions w h) \<and>
     (\<not> gameStarted s \<longrightarrow> player s = centeredPlayer (dims s))"

text \<open>
  All objects stay above the band of the player for \<open>n\<close> more ticks: they move down,
  and after \<open>n\<close> ticks their lower edge has not passed the player's upper edge.
\<close>

definition above :: "nat \<Rightarrow> GameState \<Rightarrow> bool" where
  "above n s \<longleftrightarrow>
     0 < objectSize (dims s) \<and> py (player s) \<le> height (dims s) \<and>
     (\<forall>obj \<in> set (objects s).
        0 \<le> speed obj \<and> oy obj + real n * speed obj + objectSize (dims s) \<le> py (player s))"

text \<open>The state after \<open>n\<close> ticks on which the objects fall and nothing else happens.\<close>

definition fallen :: "nat \<Rightarrow> GameState \<Rightarrow> GameState" where
  "fallen n s = s\<lparr> objects := map (\<lambda>obj. obj\<lparr> oy := oy obj + real n * speed obj \<rparr>) (objects s) \<rparr>"

text \<open>The draws of a tick lie in \<open>[0, 1)\<close>.\<close>

definition drawsOk :: "(int \<times> real \<times> real \<times> real) \<Rightarrow> bool" where
  "drawsOk x = (case x of (now, r1, r2, r3) \<Rightarrow>
     0 \<le> r1 \<and> r1 < 1 \<and> 0 \<le> r2 \<and> r2 < 1 \<and> 0 \<le> r3 \<and> r3 < 1)"

subsection \<open>Concrete sessions\<close>

text \<open>Four objects around a player at \<open>(380, 540)\<close>: three overlap it after one tick.\<close>

definition treats :: "GameObject list" where
  "treats = [\<lparr> oid = 0, ox = 380, oy = 520, speed = 2, otype = Some coin \<rparr>,
             \<lparr> oid = 1, ox = 390, oy = 530, speed = 3, otype = Some star \<rparr>,
             \<lparr> oid = 2, ox = 400, oy = 100, speed = 3, otype = Some star \<rparr>,
             \<lparr> oid = 3, ox = 370, oy = 525, speed = 5/2, otype = Some gem \<rparr>]"

text \<open>
  A session started at clock value 0 in a viewport of 1000 x 1200, which gives the
  geometry 800 x 600.  On four ticks, 1001 ms apart, a rock is spawned above the
  player, with the speeds 4.84375, 4.875, 4.9375 and 4.96875, each a little faster than
  the one before; 107 ticks later, at the end of \<open>brink\<close>, all four are just above the
  player, and on one more tick all four reach it.  All draws are doubles, and so are
  all positions.
\<close>

definition fresh :: GameState where
  "fresh = startGame 0 (initialState 1000 1200)"

definition fourRocks :: "(int \<times> real \<times> real \<times> real) list" where
  "fourRocks = [(1001, 0, 59/64, 1/2), (2002, 0, 15/16, 1/2),
                (3003, 0, 31/32, 1/2), (4004, 0, 63/64, 1/2)]"

definition brink :: "(int \<times> real \<times> real \<times> real) list" where
  "brink = fourRocks @ replicate 107 (4004, 0, 0, 0)"

definition overkill :: "(int \<times> real \<times> real \<times> real) list" where
  "overkill = brink @ [(4004, 0, 0, 0)]"

text \<open>
  The same session right after its start, when the viewport shrinks to 316 x 1200,
  which gives a field of width 300 and a player of size 20.
\<close>

definition narrowed :: GameState where
  "narrowed = handleResize 316 1200 fresh"

text \<open>
  The same session with one rock, spawned at the left edge and 50 ticks later at
  \<open>y = 223.40625\<close>, in the middle of the field.
\<close>

definition oneRock :: "(int \<times> real \<times> real \<times> real) list" where
  "oneRock = (1001, 0, 63/64, 0) # replicate 50 (1001, 0, 0, 0)"

definition onField :: GameState where
  "onField = ticks oneRock fresh"

text \<open>
  The same session with one rock, spawned above the player and 107 ticks later at
  \<open>y = 506.625\<close>, one tick away from the player at \<open>y = 540\<close>.
\<close>

definition nearRock :: "(int \<times> real \<times> real \<times> real) list" where
  "nearRock = (1001, 0, 63/64, 1/2) # replicate 107 (1001, 0, 0, 0)"

definition nearPlayer :: GameState where
  "nearPlayer = ticks nearRock fresh"


text \<open>A running session on its last life, with a coin, a rock and a gem about to hit.\<close>

definition lastLife :: GameState where
  "lastLife = (startGame 0 (initialState 1000 1200))
     \<lparr> lives := 1,
       objects := [\<lparr> oid = 0, ox = 380, oy = 520, speed = 2, otype = Some coin \<rparr>,
                   \<lparr> oid = 1, ox = 390, oy = 530, speed = 3, otype = Some rock \<rparr>,
                   \<lparr> oid = 2, ox = 400, oy = 100, speed = 3, otype = Some star \<rparr>,
                   \<lparr> oid = 3, ox = 370, oy = 525, speed = 5/2, otype = Some gem \<rparr>] \<rparr>"

text \<open>Events of every kind but the start command.\<close>

definition idleEvents :: "Event list" where
  "idleEvents = [Tick 516 0 0 0, KeyDown ''ArrowLeft'', Tick 532 0 0 0, Resize 316 1200,
                 KeyUp ''ArrowLeft'', TouchStart dir_right, Tick 548 0 0 0, TouchEnd,
                 Tick 1600 0 0 0]"

section \<open>Basic facts\<close>

lemmas consts_defs = BASE_WIDTH_def BASE_HEIGHT_def BASE_PLAYER_SIZE_def
  BASE_OBJECT_SIZE_def BASE_PLAYER_SPEED_def MIN_WIDTH_def MIN_HEIGHT_def

subsection \<open>The rounding\<close>

lemma pow2_powr: "pow2 e = 2 powr (of_int e)"
  by (simp add: pow2_def powr_real_of_int inverse_eq_divide)

lemma pow2_pos [simp]: "0 < pow2 e"
  by (simp add: pow2_powr)

lemma pow2_add: "pow2 (a + b) = pow2 a * pow2 b"
  by (simp add: pow2_powr powr_add)

lemma pow2_le_iff [simp]: "pow2 a \<le> pow2 b \<longleftrightarrow> a \<le> b"
  by (simp add: pow2_powr)

lemma pow2_less_iff [simp]: "pow2 a < pow2 b \<longleftrightarrow> a < b"
  by (simp add: pow2_powr)

lemma pow2_nat: "pow2 (int n) = 2 ^ n"
  by (simp add: pow2_def)

lemma pow2_0 [simp]: "pow2 0 = 1"
  by (simp add: pow2_def)

lemma binade_eq:
  assumes "pow2 k \<le> \<bar>x\<bar>" "\<bar>x\<bar> < pow2 (k + 1)"
  shows "binade x = k"
proof -
  from assms(1) have "0 < \<bar>x\<bar>" using pow2_pos [of k] by linarith
  then show ?thesis
    using assms unfolding binade_def
    by (subst floor_log_eq_powr_iff) (simp_all add: pow2_powr)
qed

lemma binade_bounds:
  assumes "x \<noteq> 0"
  shows "pow2 (binade x) \<le> \<bar>x\<bar>" "\<bar>x\<bar> < pow2 (binade x + 1)"
proof -
  from assms have p: "0 < \<bar>x\<bar>" by simp
  have "\<lfloor>log 2 \<bar>x\<bar>\<rfloor> = binade x" by (simp add: binade_def)
  then have "2 powr (of_int (binade x)) \<le> \<bar>x\<bar> \<and> \<bar>x\<bar> < 2 powr (of_int (binade x + 1))"
    using floor_log_eq_powr_iff [of "\<bar>x\<bar>" 2 "binade x"] p by simp
  then show "pow2 (binade x) \<le> \<bar>x\<bar>" "\<bar>x\<bar> < pow2 (binade x + 1)"
    by (simp_all add: pow2_powr)
qed

lemma roundEven_bounds: "y - 1 / 2 \<le> of_int (roundEven y)" "of_int (roundEven y) \<le> y + 1 / 2"
proof -
  define f where "f = \<lfloor>y\<rfloor>"
  have a: "of_int f \<le> y" and b: "y < of_int f + 1" unfolding f_def by linarith+
  have r: "roundEven y = (if y - of_int f < 1 / 2 then f else if 1 / 2 < y - of_int f then f + 1
                          else if even f then f else f + 1)"
    by (simp add: roundEven_def Let_def f_def)
  show "y - 1 / 2 \<le> of_int (roundEven y)"
    unfolding r using a b by auto
  show "of_int (roundEven y) \<le> y + 1 / 2"
    unfolding r using a b by auto
qed

lemma roundEven_of_int [simp]: "roundEven (of_int n) = n"
  by (simp add: roundEven_def)

lemma roundEven_floor: "\<lfloor>y\<rfloor> \<le> roundEven y" "roundEven y \<le> \<lfloor>y\<rfloor> + 1"
  by (auto simp add: roundEven_def Let_def)

lemma roundEven_mono:
  assumes "x \<le> y"
  shows "roundEven x \<le> roundEven y"
proof (cases "\<lfloor>x\<rfloor> = \<lfloor>y\<rfloor>")
  case True
  with assms show ?thesis by (auto simp add: roundEven_def Let_def)
next
  case False
  with assms have "\<lfloor>x\<rfloor> < \<lfloor>y\<rfloor>" using floor_mono [of x y] by linarith
  then have "roundEven x \<le> \<lfloor>y\<rfloor>" using roundEven_floor(2) [of x] by linarith
  with roundEven_floor(1) [of y] show ?thesis by linarith
qed

lemma pow2_neq0 [simp]: "pow2 e \<noteq> 0"
  using pow2_pos [of e] by linarith

lemma pow2_nonneg [simp]: "0 \<le> pow2 e"
  using pow2_pos [of e] by linarith

lemma pow2_neg_nat: "pow2 (- int k) = 1 / 2 ^ k"
  by (cases "k = 0") (simp_all add: pow2_def)

lemma pow2_shift: "pow2 k = 2 ^ n * pow2 (k - int n)"
  using pow2_add [of "int n" "k - int n"] by (simp add: pow2_nat)

lemma binade_minus [simp]: "binade (- x) = binade x"
  by (simp add: binade_def)

lemma binade_abs [simp]: "binade \<bar>x\<bar> = binade x"
  by (simp add: binade_def)

lemma fl_0 [simp]: "fl 0 = 0"
  by (simp add: fl_def)

lemma fl_minus: "fl (- x) = - fl x"
  by (simp add: fl_def Let_def sgn_minus)

lemma fl_pos_eq:
  assumes "0 < x"
  shows "fl x = of_int (roundEven (x / pow2 (binade x - 52))) * pow2 (binade x - 52)"
  using assms by (simp add: fl_def Let_def)

lemma fl_eval:
  assumes "pow2 k \<le> x" "x < pow2 (k + 1)"
  shows "fl x = of_int (roundEven (x / pow2 (k - 52))) * pow2 (k - 52)"
proof -
  from assms(1) have p: "0 < x" using pow2_pos [of k] by linarith
  then have "binade x = k" using assms by (intro binade_eq) simp_all
  with p show ?thesis by (simp add: fl_pos_eq)
qed

lemma mantissa_bounds:
  assumes "0 < x"
  shows "2 ^ 52 \<le> x / pow2 (binade x - 52)" "x / pow2 (binade x - 52) < 2 ^ 53"
proof -
  from assms have nz: "x \<noteq> 0" by simp
  have a: "pow2 (binade x) = 2 ^ 52 * pow2 (binade x - 52)"
    using pow2_shift [of "binade x" 52] by simp
  have b: "pow2 (binade x + 1) = 2 ^ 53 * pow2 (binade x - 52)"
    using pow2_shift [of "binade x + 1" 53] by simp
  from binade_bounds [OF nz] assms
  have "2 ^ 52 * pow2 (binade x - 52) \<le> x" "x < 2 ^ 53 * pow2 (binade x - 52)"
    by (simp_all add: a b)
  then show "2 ^ 52 \<le> x / pow2 (binade x - 52)" "x / pow2 (binade x - 52) < 2 ^ 53"
    by (simp_all add: pos_le_divide_eq pos_divide_less_eq)
qed

lemma fl_range:
  assumes "0 < x"
  shows "pow2 (binade x) \<le> fl x" "fl x \<le> pow2 (binade x + 1)"
proof -
  let ?g = "pow2 (binade x - 52)"
  let ?m = "x / ?g"
  have a: "pow2 (binade x) = 2 ^ 52 * ?g"
    using pow2_shift [of "binade x" 52] by simp
  have b: "pow2 (binade x + 1) = 2 ^ 53 * ?g"
    using pow2_shift [of "binade x + 1" 53] by simp
  have "roundEven (of_int (2 ^ 52)) \<le> roundEven ?m"
    using mantissa_bounds(1) [OF assms] by (intro roundEven_mono) simp
  then have lo: "(2 ^ 52 :: real) \<le> of_int (roundEven ?m)"
    unfolding roundEven_of_int by (simp add: numeral_power_le_of_int_cancel_iff)
  have "roundEven ?m \<le> roundEven (of_int (2 ^ 53))"
    using mantissa_bounds(2) [OF assms] by (intro roundEven_mono) simp
  then have hi: "of_int (roundEven ?m) \<le> (2 ^ 53 :: real)"
    unfolding roundEven_of_int by (simp add: of_int_le_numeral_power_cancel_iff)
  from lo have "2 ^ 52 * ?g \<le> of_int (roundEven ?m) * ?g"
    by (intro mult_right_mono) simp_all
  then show "pow2 (binade x) \<le> fl x" by (simp add: a fl_pos_eq [OF assms])
  from hi have "of_int (roundEven ?m) * ?g \<le> 2 ^ 53 * ?g"
    by (intro mult_right_mono) simp_all
  then show "fl x \<le> pow2 (binade x + 1)" by (simp add: b fl_pos_eq [OF assms])
qed

lemma binade_mono:
  assumes "0 < x" "x \<le> y"
  shows "binade x \<le> binade y"
  using assms unfolding binade_def by (intro floor_mono) simp

lemma fl_mono_pos:
  assumes "0 < x" "x \<le> y"
  shows "fl x \<le> fl y"
proof -
  from assms have py: "0 < y" by linarith
  show ?thesis
  proof (cases "binade x = binade y")
    case True
    let ?g = "pow2 (binade y - 52)"
    have "x / ?g \<le> y / ?g" using assms(2) by (intro divide_right_mono) simp_all
    then have "roundEven (x / ?g) \<le> roundEven (y / ?g)" by (rule roundEven_mono)
    then have "(of_int (roundEven (x / ?g)) :: real) \<le> of_int (roundEven (y / ?g))" by simp
    then have "of_int (roundEven (x / ?g)) * ?g \<le> of_int (roundEven (y / ?g)) * ?g"
      by (intro mult_right_mono) simp_all
    then show ?thesis by (simp add: fl_pos_eq [OF assms(1)] fl_pos_eq [OF py] True)
  next
    case False
    with binade_mono [OF assms] have "binade x + 1 \<le> binade y" by linarith
    then have "pow2 (binade x + 1) \<le> pow2 (binade y)" by simp
    with fl_range(2) [OF assms(1)] fl_range(1) [OF py] show ?thesis by linarith
  qed
qed

lemma fl_nonneg: "0 \<le> x \<Longrightarrow> 0 \<le> fl x"
proof (cases "x = 0")
  case True then show ?thesis by simp
next
  case False
  assume "0 \<le> x"
  with False have "0 < x" by simp
  from fl_range(1) [OF this] pow2_pos [of "binade x"] show ?thesis by linarith
qed

lemma fl_mono:
  assumes "x \<le> y"
  shows "fl x \<le> fl y"
proof -
  consider "0 < x" | "x \<le> 0" "0 \<le> y" | "y < 0" by linarith
  then show ?thesis
  proof cases
    case 1
    then show ?thesis using assms by (rule fl_mono_pos)
  next
    case 2
    then have "0 \<le> fl (- x)" "0 \<le> fl y" by (simp_all add: fl_nonneg)
    then show ?thesis by (simp add: fl_minus)
  next
    case 3
    with assms have "0 < - y" "- y \<le> - x" by simp_all
    then have "fl (- y) \<le> fl (- x)" by (rule fl_mono_pos)
    then show ?thesis by (simp add: fl_minus)
  qed
qed

lemma fl_error_pos:
  assumes "0 < x"
  shows "\<bar>fl x - x\<bar> \<le> pow2 (binade x - 53)"
proof -
  define g where "g = pow2 (binade x - 52)"
  define m where "m = x / g"
  define r :: real where "r = of_int (roundEven m)"
  have gp: "0 < g" by (simp add: g_def)
  have h: "pow2 (binade x - 53) = g / 2"
    using pow2_shift [of "binade x - 52" 1] by (simp add: g_def)
  have x: "x = m * g" using gp by (simp add: m_def)
  have f: "fl x = r * g" by (simp add: fl_pos_eq [OF assms] r_def m_def g_def)
  have "\<bar>r - m\<bar> \<le> 1 / 2"
    using roundEven_bounds [of m] unfolding r_def by linarith
  then have "\<bar>r - m\<bar> * g \<le> 1 / 2 * g"
    using gp by (intro mult_right_mono) simp_all
  moreover have "fl x - x = (r - m) * g"
    unfolding f by (subst x) (simp add: left_diff_distrib)
  then have "\<bar>fl x - x\<bar> = \<bar>r - m\<bar> * g"
    using gp by (simp add: abs_mult)
  ultimately show ?thesis by (simp add: h)
qed

lemma fl_error:
  assumes "\<bar>x\<bar> < pow2 j"
  shows "\<bar>fl x - x\<bar> \<le> pow2 (j - 54)"
proof (cases "x = 0")
  case True
  then show ?thesis by simp
next
  case False
  then have p: "0 < \<bar>x\<bar>" by simp
  from binade_bounds(1) [OF False] assms have "pow2 (binade x) < pow2 j" by linarith
  then have "binade x - 53 \<le> j - 54" by simp
  then have le: "pow2 (binade x - 53) \<le> pow2 (j - 54)" by simp
  have "\<bar>fl \<bar>x\<bar> - \<bar>x\<bar>\<bar> \<le> pow2 (binade x - 53)"
    using fl_error_pos [OF p] by simp
  moreover have "\<bar>fl \<bar>x\<bar> - \<bar>x\<bar>\<bar> = \<bar>fl x - x\<bar>"
    by (cases "0 \<le> x") (simp_all add: abs_if fl_minus)
  ultimately show ?thesis using le by linarith
qed

lemma fl_fix_pos:
  assumes "0 < m" "m < 2 ^ 53"
  shows "fl (of_int m * pow2 e) = of_int m * pow2 e"
proof -
  define x where "x = of_int m * pow2 e"
  define k where "k = binade x"
  from assms have p: "0 < x" by (simp add: x_def)
  then have nz: "x \<noteq> 0" by linarith
  from p have ab: "\<bar>x\<bar> = x" by (rule abs_of_pos)
  have "pow2 k \<le> x" using binade_bounds(1) [OF nz] unfolding ab k_def .
  also have "x < 2 ^ 53 * pow2 e"
    unfolding x_def using assms
    by (intro mult_strict_right_mono) (simp_all add: of_int_less_numeral_power_cancel_iff)
  also have "\<dots> = pow2 (e + 53)" using pow2_shift [of "e + 53" 53] by simp
  finally have "k < e + 53" by simp
  then have n: "0 \<le> e - (k - 52)" by linarith
  define j where "j = nat (e - (k - 52))"
  from n have ej: "e = int j + (k - 52)" by (simp add: j_def)
  have "pow2 e = 2 ^ j * pow2 (k - 52)"
    by (subst ej) (simp add: pow2_add pow2_nat)
  then have "x = of_int m * 2 ^ j * pow2 (k - 52)" by (simp add: x_def)
  then have q: "x / pow2 (k - 52) = of_int (m * 2 ^ j)" by simp
  have "fl x = of_int (roundEven (x / pow2 (k - 52))) * pow2 (k - 52)"
    unfolding k_def using p by (rule fl_pos_eq)
  also have "\<dots> = of_int (m * 2 ^ j) * pow2 (k - 52)"
    unfolding q roundEven_of_int ..
  also have "\<dots> = x / pow2 (k - 52) * pow2 (k - 52)" unfolding q ..
  also have "\<dots> = x" by simp
  finally show ?thesis by (simp add: x_def)
qed

lemma fl_fix:
  assumes "\<bar>m\<bar> < 2 ^ 53"
  shows "fl (of_int m * pow2 e) = of_int m * pow2 e"
proof -
  consider "m = 0" | "0 < m" | "m < 0" by linarith
  then show ?thesis
  proof cases
    case 1 then show ?thesis by simp
  next
    case 2 with assms show ?thesis by (intro fl_fix_pos) simp_all
  next
    case 3
    with assms have "fl (of_int (- m) * pow2 e) = of_int (- m) * pow2 e"
      by (intro fl_fix_pos) simp_all
    then show ?thesis using fl_minus [of "of_int m * pow2 e"] by simp
  qed
qed

lemma fl_int: "\<bar>n\<bar> < 2 ^ 53 \<Longrightarrow> fl (of_int n) = of_int n"
  using fl_fix [of n 0] by simp

lemma fl_dyadic: "\<bar>n\<bar> < 2 ^ 53 \<Longrightarrow> fl (of_int n / 2 ^ k) = of_int n / 2 ^ k"
  using fl_fix [of n "- int k"] by (simp add: pow2_neg_nat)

lemma fl_numeral: "(numeral n :: int) < 2 ^ 53 \<Longrightarrow> fl (numeral n) = numeral n"
  using fl_int [of "numeral n"] by simp

lemma fl_1 [simp]: "fl 1 = 1"
  using fl_int [of 1] by simp

lemma fl_half: "fl (1 / 2) = 1 / 2"
  using fl_dyadic [of 1 1] by simp

text \<open>Evaluation of \<open>fl\<close> at a number between two known powers of two.\<close>

lemmas fl_evals = pow2_def roundEven_def Let_def

lemma fl_06: "fl 0.6 = 5404319552844595 / 2 ^ 53"
  by (subst fl_eval [of "- 1"]) (simp_all add: fl_evals)

lemma fl_06_ge: "1 / 2 \<le> fl 0.6"
  unfolding fl_06 by simp

text \<open>Doubles with few bits.\<close>

lemma fl_vals:
  "fl (3 / 8) = 3 / 8" "fl (7 / 8) = 7 / 8" "fl (9 / 16) = 9 / 16" "fl (9 / 2) = 9 / 2"
  "fl (45 / 4) = 45 / 4" "fl (105 / 4) = 105 / 4" "fl (45 / 2) = 45 / 2"
  "fl (135 / 8) = 135 / 8" "fl (11 / 4) = 11 / 4" "fl (11 / 8) = 11 / 8"
  "fl (155 / 32) = 155 / 32" "fl (39 / 8) = 39 / 8" "fl (79 / 16) = 79 / 16"
  "fl (159 / 32) = 159 / 32"
  using fl_dyadic [of 3 3] fl_dyadic [of 7 3] fl_dyadic [of 9 4] fl_dyadic [of 9 1]
    fl_dyadic [of 45 2] fl_dyadic [of 105 2] fl_dyadic [of 45 1] fl_dyadic [of 135 3]
    fl_dyadic [of 11 2] fl_dyadic [of 11 3] fl_dyadic [of 155 5] fl_dyadic [of 39 3]
    fl_dyadic [of 79 4] fl_dyadic [of 159 5]
  by simp_all

lemma MIN_SCALE_eq: "MIN_SCALE = 6305039478318694 / 2 ^ 54"
  unfolding MIN_SCALE_def by (subst fl_eval [of "- 2"]) (simp_all add: fl_evals)

lemma MIN_SCALE_bounds: "5 / 16 \<le> MIN_SCALE" "MIN_SCALE \<le> 35 / 100" "MIN_SCALE < 3 / 8"
  by (simp_all add: MIN_SCALE_eq)

subsection \<open>The geometry\<close>

lemma scale_of_bounds: "MIN_SCALE \<le> scale_of w h \<and> scale_of w h \<le> 1"
  using MIN_SCALE_bounds by (simp add: scale_of_def Let_def max_def min_def)

lemma scale_of_spec: "scale_of w h = spec_scale (fl (w - 16)) h"
  by (simp add: scale_of_def spec_scale_def Let_def max.commute)

lemma floor_fl_le:
  assumes "sc \<le> 1" "0 \<le> b" "fl b = b"
  shows "of_int \<lfloor>fl (b * sc)\<rfloor> \<le> b"
proof -
  have "b * sc \<le> b * 1" using assms by (intro mult_left_mono) simp_all
  then have "fl (b * sc) \<le> fl b" by (intro fl_mono) simp
  moreover have "of_int \<lfloor>fl (b * sc)\<rfloor> \<le> fl (b * sc)" by (rule of_int_floor_le)
  ultimately show ?thesis using assms(3) by linarith
qed

lemma fl_scaled_le:
  assumes "sc \<le> 1" "0 \<le> b" "fl b = b"
  shows "fl (b * sc) \<le> b"
proof -
  have "b * sc \<le> b * 1" using assms by (intro mult_left_mono) simp_all
  then have "fl (b * sc) \<le> fl b" by (intro fl_mono) simp
  then show ?thesis using assms(3) by simp
qed

lemma calc_bounds:
  fixes w h :: real
  defines "d \<equiv> calculateDimensions w h"
  shows "280 \<le> width d" "width d \<le> 800" "200 \<le> height d" "height d \<le> 600"
    "20 \<le> playerSize d" "playerSize d \<le> 40" "16 \<le> objectSize d" "objectSize d \<le> 30"
    "3 \<le> playerSpeed d" "playerSpeed d \<le> 8"
proof -
  from scale_of_bounds [of w h] have sb: "scale_of w h \<le> 1" by simp
  have f800: "of_int \<lfloor>fl (800 * scale_of w h)\<rfloor> \<le> (800::real)"
    using sb by (intro floor_fl_le) (simp_all add: fl_numeral)
  have f600: "of_int \<lfloor>fl (600 * scale_of w h)\<rfloor> \<le> (600::real)"
    using sb by (intro floor_fl_le) (simp_all add: fl_numeral)
  have f40: "of_int \<lfloor>fl (40 * scale_of w h)\<rfloor> \<le> (40::real)"
    using sb by (intro floor_fl_le) (simp_all add: fl_numeral)
  have f30: "of_int \<lfloor>fl (30 * scale_of w h)\<rfloor> \<le> (30::real)"
    using sb by (intro floor_fl_le) (simp_all add: fl_numeral)
  have f8: "fl (8 * scale_of w h) \<le> (8::real)"
    using sb by (intro fl_scaled_le) (simp_all add: fl_numeral)
  show "280 \<le> width d" by (simp add: d_def calculateDimensions_def consts_defs Let_def)
  have "min (of_int \<lfloor>fl (800 * scale_of w h)\<rfloor>) (fl (w - 16)) \<le> (800::real)"
    using f800 by (rule min.coboundedI1)
  then show "width d \<le> 800"
    by (simp add: d_def calculateDimensions_def consts_defs Let_def)
  show "200 \<le> height d" by (simp add: d_def calculateDimensions_def consts_defs Let_def)
  show "height d \<le> 600" using f600 by (simp add: d_def calculateDimensions_def consts_defs Let_def)
  show "20 \<le> playerSize d" by (simp add: d_def calculateDimensions_def consts_defs Let_def)
  show "playerSize d \<le> 40" using f40 by (simp add: d_def calculateDimensions_def consts_defs Let_def)
  show "16 \<le> objectSize d" by (simp add: d_def calculateDimensions_def consts_defs Let_def)
  show "objectSize d \<le> 30" using f30 by (simp add: d_def calculateDimensions_def consts_defs Let_def)
  show "3 \<le> playerSpeed d" by (simp add: d_def calculateDimensions_def consts_defs Let_def)
  show "playerSpeed d \<le> 8" using f8 by (simp add: d_def calculateDimensions_def consts_defs Let_def)
qed

text \<open>In a viewport at least 1200 high the height does not limit the scale.\<close>

lemma heightScale_tall:
  assumes "1200 \<le> h"
  shows "1 \<le> fl (fl (h * fl 0.6) / 600)"
proof -
  have "1200 * (1 / 2) \<le> h * fl 0.6"
    using assms fl_06_ge by (intro mult_mono) simp_all
  then have "600 \<le> h * fl 0.6" by simp
  then have "fl 600 \<le> fl (h * fl 0.6)" by (rule fl_mono)
  then have "1 \<le> fl (h * fl 0.6) / 600" by (simp add: fl_numeral)
  then have "fl 1 \<le> fl (fl (h * fl 0.6) / 600)" by (rule fl_mono)
  then show ?thesis by simp
qed

lemma scale_of_tall:
  assumes "1200 \<le> h"
  shows "scale_of w h = max (min (fl (fl (w - 16) / 800)) 1) MIN_SCALE"
  using heightScale_tall [OF assms]
  by (simp add: scale_of_def consts_defs Let_def min_def)

text \<open>The geometries of the viewports that the concrete sessions use.\<close>

lemma dims_of_scale:
  "calculateDimensions w h =
     \<lparr> width = max 280 (min (of_int \<lfloor>fl (800 * scale_of w h)\<rfloor>) (fl (w - 16))),
       height = max 200 (of_int \<lfloor>fl (600 * scale_of w h)\<rfloor>),
       playerSize = max 20 (of_int \<lfloor>fl (40 * scale_of w h)\<rfloor>),
       objectSize = max 16 (of_int \<lfloor>fl (30 * scale_of w h)\<rfloor>),
       playerSpeed = max 3 (fl (8 * scale_of w h)) \<rparr>"
  by (simp add: calculateDimensions_def consts_defs Let_def)

lemma scale_1000: "scale_of 1000 1200 = 1"
proof -
  have "fl 1 \<le> fl (984 / 800)" by (intro fl_mono) simp
  then show ?thesis using MIN_SCALE_bounds
    by (simp add: scale_of_tall fl_numeral min_def max_def)
qed

lemma dims_1000:
  "calculateDimensions 1000 1200 =
     \<lparr> width = 800, height = 600, playerSize = 40, objectSize = 30, playerSpeed = 8 \<rparr>"
  by (simp add: dims_of_scale scale_1000 fl_numeral)

lemma scale_316: "scale_of 316 1200 = 3 / 8"
  using MIN_SCALE_bounds
  by (simp add: scale_of_tall fl_numeral fl_vals min_def max_def)

lemma dims_316:
  "calculateDimensions 316 1200 =
     \<lparr> width = 300, height = 225, playerSize = 20, objectSize = 16, playerSpeed = 3 \<rparr>"
  by (simp add: dims_of_scale scale_316 fl_numeral fl_vals)

lemma scale_716: "scale_of 716 1200 = 7 / 8"
  using MIN_SCALE_bounds
  by (simp add: scale_of_tall fl_numeral fl_vals min_def max_def)

lemma dims_716:
  "calculateDimensions 716 1200 =
     \<lparr> width = 700, height = 525, playerSize = 35, objectSize = 26, playerSpeed = 7 \<rparr>"
  by (simp add: dims_of_scale scale_716 fl_numeral fl_vals)

lemma scale_466: "scale_of 466 1200 = 9 / 16"
  using MIN_SCALE_bounds
  by (simp add: scale_of_tall fl_numeral fl_vals min_def max_def)

lemma scale_416: "scale_of 416 1200 = 1 / 2"
  using MIN_SCALE_bounds
  by (simp add: scale_of_tall fl_numeral fl_half min_def max_def)

lemma dims_416:
  "calculateDimensions 416 1200 =
     \<lparr> width = 400, height = 300, playerSize = 20, objectSize = 16, playerSpeed = 4 \<rparr>"
  by (simp add: dims_of_scale scale_416 fl_numeral)

lemma scale_296: "scale_of 296 1200 = MIN_SCALE"
proof -
  have "fl (280 / 800) = MIN_SCALE" by (simp add: MIN_SCALE_def)
  then show ?thesis using MIN_SCALE_bounds
    by (simp add: scale_of_tall fl_numeral min_def max_def)
qed

lemma dims_296:
  "calculateDimensions 296 1200 =
     \<lparr> width = 280, height = 210, playerSize = 20, objectSize = 16, playerSpeed = 3 \<rparr>"
proof -
  have a: "fl (800 * MIN_SCALE) = 280"
    unfolding MIN_SCALE_eq by (subst fl_eval [of 8]) (simp_all add: fl_evals)
  have b: "fl (600 * MIN_SCALE) = 210"
    unfolding MIN_SCALE_eq by (subst fl_eval [of 7]) (simp_all add: fl_evals)
  have c: "fl (40 * MIN_SCALE) = 14"
    unfolding MIN_SCALE_eq by (subst fl_eval [of 3]) (simp_all add: fl_evals)
  have d: "fl (30 * MIN_SCALE) = 21 / 2"
    unfolding MIN_SCALE_eq by (subst fl_eval [of 3]) (simp_all add: fl_evals)
  have e: "fl (8 * MIN_SCALE) \<le> 3"
  proof -
    have "fl (8 * MIN_SCALE) \<le> fl 3" using MIN_SCALE_bounds by (intro fl_mono) simp
    then show ?thesis by (simp add: fl_numeral)
  qed
  show ?thesis using e
    by (simp add: dims_of_scale scale_296 a b c d fl_numeral)
qed

lemma fl_nonpos: "x \<le> 0 \<Longrightarrow> fl x \<le> 0"
  using fl_mono [of x 0] by simp

lemma top_row:
  "fl (800 * MIN_SCALE) = 280"
  unfolding MIN_SCALE_eq by (subst fl_eval [of 8]) (simp_all add: fl_evals)

lemma width_cap_int:
  assumes w: "w = of_int n" and n: "\<bar>n\<bar> < 2 ^ 52"
  shows "width (calculateDimensions w h) = max 280 (of_int \<lfloor>fl (800 * scale_of w h)\<rfloor>)"
proof -
  define a where "a = n - 16"
  define sc where "sc = scale_of w h"
  define F where "F = \<lfloor>fl (800 * sc)\<rfloor>"
  from n have "\<bar>a\<bar> < 2 ^ 53" by (simp add: a_def)
  then have "fl (of_int a) = of_int a" by (rule fl_int)
  then have aw: "fl (w - 16) = of_int a" by (simp add: w a_def)
  have wd: "width (calculateDimensions w h) = max 280 (min (of_int F) (of_int a))"
    by (simp add: dims_of_scale aw F_def sc_def)
  have sc1: "sc \<le> 1" and scm: "MIN_SCALE \<le> sc"
    using scale_of_bounds [of w h] by (simp_all add: sc_def)
  have key: "F \<le> a" if big: "280 < F"
  proof -
    define ws where "ws = fl (of_int a / 800)"
    have ne: "sc \<noteq> MIN_SCALE"
    proof
      assume "sc = MIN_SCALE"
      then have "F = 280" by (simp add: F_def top_row)
      with big show False by simp
    qed
    have "sc = max (min (min ws (fl (fl (h * fl 0.6) / 600))) 1) MIN_SCALE"
      by (simp add: sc_def scale_of_def consts_defs Let_def aw ws_def)
    with ne have "sc = min (min ws (fl (fl (h * fl 0.6) / 600))) 1"
      by (simp add: max_def split: if_splits)
    then have sw: "sc \<le> ws" by simp
    show ?thesis
    proof (cases "800 \<le> a")
      case True
      have "of_int F \<le> fl (800 * sc)" unfolding F_def by (rule of_int_floor_le)
      also have "\<dots> \<le> 800" using sc1 by (intro fl_scaled_le) (simp_all add: fl_numeral)
      finally have "F \<le> 800" by simp
      with True show ?thesis by linarith
    next
      case False
      then have a8: "a \<le> 799" by simp
      have "0 < ws" using sw scm MIN_SCALE_bounds by linarith
      then have "\<not> of_int a / (800::real) \<le> 0"
        using fl_nonpos [of "of_int a / 800"] by (auto simp add: ws_def)
      then have a0: "0 < a" by (simp add: field_simps)
      have q1: "\<bar>of_int a / (800::real)\<bar> < pow2 0" using a0 a8 by simp
      have e1: "\<bar>ws - of_int a / 800\<bar> \<le> pow2 (- 54)"
        unfolding ws_def using fl_error [OF q1] by simp
      then have u1: "800 * ws \<le> of_int a + 800 * pow2 (- 54)"
        by (simp add: abs_le_iff field_simps)
      have p54: "pow2 (- 54) = 1 / 2 ^ 54" and p44: "pow2 (- 44) = 1 / 2 ^ 44"
        and p10: "pow2 10 = 1024"
        by (simp_all add: pow2_def)
      have wpos: "0 \<le> 800 * ws" using \<open>0 < ws\<close> by simp
      have "of_int a \<le> (799::real)" using a8 by simp
      then have "800 * ws < 1024" using u1 by (simp add: p54)
      then have q2: "\<bar>800 * ws\<bar> < pow2 10" using wpos by (simp add: p10)
      have e2: "\<bar>fl (800 * ws) - 800 * ws\<bar> \<le> pow2 (- 44)"
        using fl_error [OF q2] by simp
      have "fl (800 * sc) \<le> fl (800 * ws)" using sw by (intro fl_mono) simp
      also have "\<dots> \<le> 800 * ws + pow2 (- 44)" using e2 by (simp add: abs_le_iff)
      also have "\<dots> \<le> of_int a + 800 * pow2 (- 54) + pow2 (- 44)" using u1 by simp
      also have "\<dots> < of_int a + 1" by (simp add: p54 p44)
      finally have "fl (800 * sc) < of_int (a + 1)" by simp
      then have "F < a + 1" unfolding F_def by (simp only: floor_less_iff)
      then show ?thesis by simp
    qed
  qed
  show ?thesis
  proof (cases "280 < F")
    case True
    then have "F \<le> a" by (rule key)
    then have "(of_int F :: real) \<le> of_int a" by simp
    then show ?thesis by (simp add: wd F_def sc_def)
  next
    case False
    then have f: "(of_int F :: real) \<le> 280" by simp
    then have "min (of_int F) (of_int a) \<le> (280 :: real)" by (rule min.coboundedI1)
    with f show ?thesis by (simp add: wd F_def [symmetric] sc_def [symmetric] max_def)
  qed
qed

lemma width_430: "width (calculateDimensions 430 932) = 413"
proof -
  define H where "H = fl (fl (932 * fl 0.6) / 600)"
  have ws: "fl (207 / 400) = 4661225614328463 / 2 ^ 53"
    by (subst fl_eval [of "- 1"]) (simp_all add: fl_evals)
  have "932 * (1 / 2) \<le> 932 * fl 0.6" using fl_06_ge by (intro mult_left_mono) simp_all
  then have "fl 466 \<le> fl (932 * fl 0.6)" by (intro fl_mono) simp
  then have "3 / 4 \<le> fl (932 * fl 0.6) / 600" by (simp add: fl_numeral)
  then have "fl (3 / 4) \<le> H" unfolding H_def by (rule fl_mono)
  then have hs: "3 / 4 \<le> H" using fl_dyadic [of 3 2] by simp
  have sc0: "scale_of 430 932 = max (min (min (fl (207 / 400)) H) 1) MIN_SCALE"
    by (simp add: scale_of_def consts_defs Let_def fl_numeral H_def)
  have "min (fl (207 / 400)) H = fl (207 / 400)"
    using hs by (intro min_absorb1) (simp add: ws)
  then have sc: "scale_of 430 932 = 4661225614328463 / 2 ^ 53"
    by (simp add: sc0 ws MIN_SCALE_eq)
  have p: "fl (116530640358211575 / 281474976710656) = 7283165022388223 / 2 ^ 44"
    by (subst fl_eval [of 8]) (simp_all add: fl_evals)
  show ?thesis
    by (simp add: dims_of_scale sc p fl_numeral)
qed

lemma height_344: "height (calculateDimensions 344 882) = 245"
proof -
  define H where "H = fl (fl (882 * fl 0.6) / 600)"
  have ws: "fl (41 / 100) = 7385903388887613 / 2 ^ 54"
    by (subst fl_eval [of "- 2"]) (simp_all add: fl_evals)
  have "882 * (1 / 2) \<le> 882 * fl 0.6" using fl_06_ge by (intro mult_left_mono) simp_all
  then have "fl 441 \<le> fl (882 * fl 0.6)" by (intro fl_mono) simp
  then have "1 / 2 \<le> fl (882 * fl 0.6) / 600" by (simp add: fl_numeral)
  then have "fl (1 / 2) \<le> H" unfolding H_def by (rule fl_mono)
  then have hs: "1 / 2 \<le> H" by (simp add: fl_half)
  have sc0: "scale_of 344 882 = max (min (min (fl (41 / 100)) H) 1) MIN_SCALE"
    by (simp add: scale_of_def consts_defs Let_def fl_numeral H_def)
  have "min (fl (41 / 100)) H = fl (41 / 100)"
    using hs by (intro min_absorb1) (simp add: ws)
  then have sc: "scale_of 344 882 = 7385903388887613 / 2 ^ 54"
    by (simp add: sc0 ws MIN_SCALE_eq)
  have p: "fl (553942754166570975 / 2251799813685248) = 8655355533852671 / 2 ^ 45"
    by (subst fl_eval [of 7]) (simp_all add: fl_evals)
  show ?thesis
    by (simp add: dims_of_scale sc p)
qed

subsection \<open>The base speed\<close>

lemma fl_2r:
  assumes "0 \<le> r" "r < 1" "0 < c" "c \<le> 2" "fl 2 = 2"
  shows "0 \<le> fl (r * c)" "fl (r * c) \<le> 2" "\<bar>fl (r * c) - r * c\<bar> \<le> 1 / 2 ^ 53"
proof -
  have a: "0 \<le> r * c" using assms by simp
  have "r * c \<le> 1 * 2" using assms by (intro mult_mono) simp_all
  then have b: "r * c \<le> 2" by simp
  have "r * c < 1 * c" using assms by (intro mult_strict_right_mono) simp_all
  then have "r * c < c" by (simp only: mult_1)
  then have c: "r * c < 2" using assms(4) by linarith
  show "0 \<le> fl (r * c)" using a by (rule fl_nonneg)
  have "fl (r * c) \<le> fl 2" using b by (rule fl_mono)
  then show "fl (r * c) \<le> 2" using assms(5) by simp
  have "\<bar>r * c\<bar> < pow2 1" using a c by (simp add: pow2_def)
  from fl_error [OF this] show "\<bar>fl (r * c) - r * c\<bar> \<le> 1 / 2 ^ 53"
    by (simp add: pow2_def)
qed

lemma baseSpeed_rock:
  assumes "0 \<le> r" "r < 1"
  shows "3 \<le> baseSpeed (Some rock) r" "baseSpeed (Some rock) r \<le> 5"
    "\<bar>baseSpeed (Some rock) r - (3 + r * 2)\<bar> \<le> 1 / 2 ^ 50"
proof -
  define t where "t = fl (r * 2)"
  have f2: "fl 2 = 2" by (simp add: fl_numeral)
  have t: "0 \<le> t" "t \<le> 2" "\<bar>t - r * 2\<bar> \<le> 1 / 2 ^ 53"
    unfolding t_def using assms f2 by (intro fl_2r; simp)+
  have b: "baseSpeed (Some rock) r = fl (3 + t)" by (simp add: baseSpeed_def t_def)
  have "fl 3 \<le> fl (3 + t)" using t by (intro fl_mono) simp
  then show "3 \<le> baseSpeed (Some rock) r" by (simp add: b fl_numeral)
  have "fl (3 + t) \<le> fl 5" using t by (intro fl_mono) simp
  then show "baseSpeed (Some rock) r \<le> 5" by (simp add: b fl_numeral)
  have "\<bar>3 + t\<bar> < pow2 3" using t by (simp add: pow2_def)
  from fl_error [OF this] have "\<bar>fl (3 + t) - (3 + t)\<bar> \<le> 1 / 2 ^ 51"
    by (simp add: pow2_def)
  with t(3) have "\<bar>fl (3 + t) - (3 + r * 2)\<bar> \<le> 1 / 2 ^ 51 + 1 / 2 ^ 53" by linarith
  then show "\<bar>baseSpeed (Some rock) r - (3 + r * 2)\<bar> \<le> 1 / 2 ^ 50"
    by (simp add: b)
qed

lemma baseSpeed_other:
  assumes "0 \<le> r" "r < 1" "ty \<noteq> Some rock"
  shows "2 \<le> baseSpeed ty r" "baseSpeed ty r \<le> 7 / 2"
    "\<bar>baseSpeed ty r - (2 + r * (3 / 2))\<bar> \<le> 1 / 2 ^ 50"
proof -
  define t where "t = fl (r * (3 / 2))"
  have f2: "fl 2 = 2" by (simp add: fl_numeral)
  have f32: "fl (3 / 2) = 3 / 2" and f72: "fl (7 / 2) = 7 / 2"
    using fl_dyadic [of 3 1] fl_dyadic [of 7 1] by simp_all
  have t: "0 \<le> t" "\<bar>t - r * (3 / 2)\<bar> \<le> 1 / 2 ^ 53"
    unfolding t_def using assms f2 by (intro fl_2r; simp)+
  have "r * (3 / 2) \<le> 1 * (3 / 2)" using assms by (intro mult_right_mono) simp_all
  then have "fl (r * (3 / 2)) \<le> fl (3 / 2)" by (intro fl_mono) simp
  then have t2: "t \<le> 3 / 2" by (simp add: t_def f32)
  have b: "baseSpeed ty r = fl (2 + t)" using assms(3) by (simp add: baseSpeed_def t_def)
  have "fl 2 \<le> fl (2 + t)" using t by (intro fl_mono) simp
  then show "2 \<le> baseSpeed ty r" by (simp add: b fl_numeral)
  have "fl (2 + t) \<le> fl (7 / 2)" using t2 by (intro fl_mono) simp
  then show "baseSpeed ty r \<le> 7 / 2" by (simp add: b f72)
  have "\<bar>2 + t\<bar> < pow2 2" using t t2 by (simp add: pow2_def)
  from fl_error [OF this] have "\<bar>fl (2 + t) - (2 + t)\<bar> \<le> 1 / 2 ^ 52"
    by (simp add: pow2_def)
  with t(2) have "\<bar>fl (2 + t) - (2 + r * (3 / 2))\<bar> \<le> 1 / 2 ^ 52 + 1 / 2 ^ 53" by linarith
  then show "\<bar>baseSpeed ty r - (2 + r * (3 / 2))\<bar> \<le> 1 / 2 ^ 50"
    by (simp add: b)
qed

lemma baseSpeed_top:
  "fl (1 - 1 / 2 ^ 52) = 1 - 1 / 2 ^ 52" "baseSpeed (Some rock) (1 - 1 / 2 ^ 52) = 5"
  "fl (1 - 1 / 2 ^ 53) = 1 - 1 / 2 ^ 53" "baseSpeed (Some coin) (1 - 1 / 2 ^ 53) = 7 / 2"
proof -
  have e1: "(1 - 1 / 2 ^ 52 :: real) = of_int (2 ^ 52 - 1) / 2 ^ 52" by simp
  show d1: "fl (1 - 1 / 2 ^ 52) = 1 - 1 / 2 ^ 52"
    unfolding e1 by (rule fl_dyadic) simp
  have e2: "((1 - 1 / 2 ^ 52) * 2 :: real) = of_int (2 ^ 52 - 1) / 2 ^ 51" by simp
  have a: "fl ((1 - 1 / 2 ^ 52) * 2) = (1 - 1 / 2 ^ 52) * 2"
    unfolding e2 by (rule fl_dyadic) simp
  show "baseSpeed (Some rock) (1 - 1 / 2 ^ 52) = 5"
    unfolding baseSpeed_def if_P [OF refl] a
    by (subst fl_eval [of 2]) (simp_all add: fl_evals)
  have e3: "(1 - 1 / 2 ^ 53 :: real) = of_int (2 ^ 53 - 1) / 2 ^ 53" by simp
  show "fl (1 - 1 / 2 ^ 53) = 1 - 1 / 2 ^ 53"
    unfolding e3 by (rule fl_dyadic) simp
  have b: "fl ((1 - 1 / 2 ^ 53) * 1.5) = 3 / 2 - 1 / 2 ^ 52"
    by (subst fl_eval [of 0]) (simp_all add: fl_evals)
  have "baseSpeed (Some coin) (1 - 1 / 2 ^ 53) = fl (2 + (3 / 2 - 1 / 2 ^ 52))"
    by (simp only: baseSpeed_def b) simp
  also have "\<dots> = 7 / 2"
    by (subst fl_eval [of 1]) (simp_all add: fl_evals)
  finally show "baseSpeed (Some coin) (1 - 1 / 2 ^ 53) = 7 / 2" .
qed

text \<open>The base speeds of the draws that the concrete sessions use.\<close>

lemma baseSpeed_vals:
  "baseSpeed (Some rock) 0 = 3" "baseSpeed (Some rock) (1 / 2) = 4"
  "baseSpeed (Some coin) 0 = 2" "baseSpeed (Some coin) (1 / 2) = 11 / 4"
  "baseSpeed (Some rock) (59 / 64) = 155 / 32" "baseSpeed (Some rock) (15 / 16) = 39 / 8"
  "baseSpeed (Some rock) (31 / 32) = 79 / 16" "baseSpeed (Some rock) (63 / 64) = 159 / 32"
proof -
  have v: "fl (3 / 4) = 3 / 4" "fl (11 / 4) = 11 / 4" "fl (59 / 32) = 59 / 32"
    "fl (155 / 32) = 155 / 32" "fl (15 / 8) = 15 / 8" "fl (39 / 8) = 39 / 8"
    "fl (31 / 16) = 31 / 16" "fl (79 / 16) = 79 / 16" "fl (63 / 32) = 63 / 32"
    "fl (159 / 32) = 159 / 32"
    using fl_dyadic [of 3 2] fl_dyadic [of 11 2] fl_dyadic [of 59 5] fl_dyadic [of 155 5]
      fl_dyadic [of 15 3] fl_dyadic [of 39 3] fl_dyadic [of 31 4] fl_dyadic [of 79 4]
      fl_dyadic [of 63 5] fl_dyadic [of 159 5]
    by simp_all
  show "baseSpeed (Some rock) 0 = 3" "baseSpeed (Some rock) (1 / 2) = 4"
    "baseSpeed (Some coin) 0 = 2" "baseSpeed (Some coin) (1 / 2) = 11 / 4"
    "baseSpeed (Some rock) (59 / 64) = 155 / 32" "baseSpeed (Some rock) (15 / 16) = 39 / 8"
    "baseSpeed (Some rock) (31 / 32) = 79 / 16" "baseSpeed (Some rock) (63 / 64) = 159 / 32"
    by (simp_all add: baseSpeed_def fl_numeral v)
qed

subsection \<open>The collision loop in closed form\<close>

lemma forEach_resolve:
  "forEach d p xs (s, rem) = (resolve s (hits d p xs), rem @ misses d p xs)"
  by (induction xs arbitrary: s rem) (simp_all add: resolve_def hits_def misses_def)

lemma rocks_Nil [simp]: "rocks [] = 0" and gain_Nil [simp]: "gain [] = 0"
  by (simp_all add: rocks_def gain_def)

lemma rocks_nonneg: "0 \<le> rocks hs"
  by (simp add: rocks_def)

lemma rocks_Cons:
  "rocks (obj # hs) = (if otype obj = Some rock then 1 else 0) + rocks hs"
  by (simp add: rocks_def)

lemma gain_Cons: "gain (obj # hs) = points (otype obj) + gain hs"
  by (simp add: gain_def)

lemma resolve_Nil [simp]: "resolve s [] = s"
  by (simp add: resolve_def)

lemma resolve_Cons: "resolve s (obj # hs) = resolve (applyOutcome (otype obj) s) hs"
  by (simp add: resolve_def)

lemma resolve_closed:
  "resolve s hs =
     s\<lparr> gameOver := gameOver s \<or> (0 < rocks hs \<and> lives s - rocks hs \<le> 0),
        score := score s + gain hs,
        lives := lives s - rocks hs \<rparr>"
proof (induction hs arbitrary: s)
  case Nil
  show ?case by simp
next
  case (Cons obj hs)
  have nn: "0 \<le> rocks hs" by (rule rocks_nonneg)
  show ?case
  proof (cases "otype obj = Some rock")
    case True
    with nn show ?thesis
      by (intro GameState.equality)
         (auto simp add: resolve_Cons Cons.IH rocks_Cons gain_Cons applyOutcome_def
            loseLife_def points_def Let_def)
  next
    case False
    then show ?thesis
      by (intro GameState.equality)
         (auto simp add: resolve_Cons Cons.IH rocks_Cons gain_Cons applyOutcome_def
            points_def)
  qed
qed

lemma gameLoop_running:
  assumes "gameStarted s" "\<not> gameOver s"
  shows "gameLoop now r1 r2 r3 s =
     (let s1 = trySpawn now r1 r2 r3 s;
          p = movePlayer s1 (player s1);
          u = updated (dims s) (objects s1);
          hs = hits (dims s) p u
      in s1\<lparr> player := p,
             gameOver := 0 < rocks hs \<and> lives s - rocks hs \<le> 0,
             score := score s + gain hs,
             lives := lives s - rocks hs,
             objects := misses (dims s) p u \<rparr>)"
  using assms
  by (simp add: gameLoop_def forEach_resolve resolve_closed Let_def trySpawn_def spawnObject_def)

lemma gameLoop_tickHits:
  assumes "phase s = Running"
  shows "gameLoop now r1 r2 r3 s =
     (let s1 = trySpawn now r1 r2 r3 s;
          p = movePlayer s1 (player s1);
          hs = tickHits now r1 r2 r3 s
      in s1\<lparr> player := p,
             gameOver := 0 < rocks hs \<and> lives s - rocks hs \<le> 0,
             score := score s + gain hs,
             lives := lives s - rocks hs,
             objects := misses (dims s) p (updated (dims s) (objects s1)) \<rparr>)"
proof -
  from assms have "gameStarted s" "\<not> gameOver s"
    by (auto simp add: phase_def split: if_splits)
  then show ?thesis
    by (simp add: gameLoop_running tickHits_def Let_def)
qed

lemma phase_iff:
  "phase s = Running \<longleftrightarrow> gameStarted s \<and> \<not> gameOver s"
  "phase s = GameOver \<longleftrightarrow> gameStarted s \<and> gameOver s"
  "phase s = NotStarted \<longleftrightarrow> \<not> gameStarted s"
  by (simp_all add: phase_def)

lemma trySpawn_frame:
  "dims (trySpawn now r1 r2 r3 s) = dims s"
  "player (trySpawn now r1 r2 r3 s) = player s"
  "keys (trySpawn now r1 r2 r3 s) = keys s"
  "touchDirection (trySpawn now r1 r2 r3 s) = touchDirection s"
  "gameStarted (trySpawn now r1 r2 r3 s) = gameStarted s"
  "gameOver (trySpawn now r1 r2 r3 s) = gameOver s"
  "score (trySpawn now r1 r2 r3 s) = score s"
  "lives (trySpawn now r1 r2 r3 s) = lives s"
  by (simp_all add: trySpawn_def spawnObject_def)

lemma movePlayer_trySpawn:
  "movePlayer (trySpawn now r1 r2 r3 s) p = movePlayer s p"
  by (simp add: movePlayer_def isMovingLeft_def isMovingRight_def trySpawn_frame)

lemma trySpawn_lives_irrelevant:
  "trySpawn now r1 r2 r3 (s\<lparr> lives := l \<rparr>) = (trySpawn now r1 r2 r3 s)\<lparr> lives := l \<rparr>"
  by (simp add: trySpawn_def spawnObject_def)

lemma tickHits_lives_irrelevant:
  "tickHits now r1 r2 r3 (s\<lparr> lives := l \<rparr>) = tickHits now r1 r2 r3 s"
  by (simp add: tickHits_def Let_def trySpawn_lives_irrelevant movePlayer_def
      isMovingLeft_def isMovingRight_def)

lemma gameLoop_over: "gameOver s \<Longrightarrow> gameLoop now r1 r2 r3 s = s"
  by (simp add: gameLoop_def)

lemma gameLoop_not_running: "phase s \<noteq> Running \<Longrightarrow> gameLoop now r1 r2 r3 s = s"
  by (auto simp add: gameLoop_def phase_iff)

lemma gameLoop_frame:
  "dims (gameLoop now r1 r2 r3 s) = dims s"
  "gameStarted (gameLoop now r1 r2 r3 s) = gameStarted s"
  "keys (gameLoop now r1 r2 r3 s) = keys s"
  "touchDirection (gameLoop now r1 r2 r3 s) = touchDirection s"
  by (cases "phase s = Running";
      simp add: gameLoop_tickHits gameLoop_not_running Let_def trySpawn_frame)+

lemma gameLoop_player:
  "player (gameLoop now r1 r2 r3 s) =
     (if phase s = Running then movePlayer s (player s) else player s)"
  by (cases "phase s = Running")
     (simp_all add: gameLoop_tickHits gameLoop_not_running Let_def trySpawn_frame
        movePlayer_trySpawn)

lemma gameLoop_lives:
  "lives (gameLoop now r1 r2 r3 s) =
     lives s - (if phase s = Running then rocks (tickHits now r1 r2 r3 s) else 0)"
  "gameOver (gameLoop now r1 r2 r3 s) =
     (if phase s = Running
      then 0 < rocks (tickHits now r1 r2 r3 s) \<and> lives s - rocks (tickHits now r1 r2 r3 s) \<le> 0
      else gameOver s)"
  by (cases "phase s = Running";
      simp add: gameLoop_tickHits gameLoop_not_running Let_def trySpawn_frame)+

subsection \<open>Evaluation of concrete runs\<close>

lemmas run_defs = gameLoop_def startGame_def initialState_def dims_1000 dims_316 dims_716
  dims_416 dims_296 consts_defs centeredPlayer_def trySpawn_def spawnObject_def newObject_def
  pickType_def types_def baseSpeed_vals fl_numeral fl_vals fl_half movePlayer_def
  isMovingLeft_def isMovingRight_def updated_def fall_def checkCollision_def applyOutcome_def
  loseLife_def Let_def

lemmas obs_defs = tickHits_def hits_def misses_def rocks_def gain_def points_def phase_def

section \<open>Start and restart\<close>

text \<open>
  Claim C5.  From every prior state (not started, running or game over) the start and
  restart command \<open>startGame\<close> yields score 0, three lives, no objects, the phase
  \<open>Running\<close>, and the player centered horizontally at the fixed vertical offset of 20
  above the bottom, sized by the current geometry, which the command leaves as it is.
\<close>

theorem startGame_resets:
  "score (startGame now s) = 0 \<and>
   lives (startGame now s) = 3 \<and>
   objects (startGame now s) = [] \<and>
   phase (startGame now s) = Running \<and>
   dims (startGame now s) = dims s \<and>
   px (player (startGame now s)) = width (dims s) / 2 - playerSize (dims s) / 2 \<and>
   py (player (startGame now s)) = height (dims s) - playerSize (dims s) - 20 \<and>
   pwidth (player (startGame now s)) = playerSize (dims s) \<and>
   pheight (player (startGame now s)) = playerSize (dims s)"
  by (simp add: startGame_def phase_def centeredPlayer_def)

section \<open>The spawner\<close>

subsection \<open>Category selection\<close>




subsection \<open>Fall speed\<close>

text \<open>
  Claim C7 as stated fails at the upper ends of the two intervals: they are reached.
  For the draw \<open>1 - 2^-52\<close>, a double below 1, the double sum \<open>3 + r * 2\<close> of a rock is
  exactly 5, and for the draw \<open>1 - 2^-53\<close>, the largest double below 1, the double sum
  \<open>2 + r * 1.5\<close> of a coin is exactly 3.5.
\<close>

theorem speed_reaches_upper_end:
  "(0::real) \<le> 1 - 1 / 2 ^ 52 \<and> (1 - 1 / 2 ^ 52 :: real) < 1 \<and>
   fl (1 - 1 / 2 ^ 52) = 1 - 1 / 2 ^ 52 \<and>
   baseSpeed (Some rock) (1 - 1 / 2 ^ 52) = 5 \<and>
   (0::real) \<le> 1 - 1 / 2 ^ 53 \<and> (1 - 1 / 2 ^ 53 :: real) < 1 \<and>
   fl (1 - 1 / 2 ^ 53) = 1 - 1 / 2 ^ 53 \<and>
   baseSpeed (Some coin) (1 - 1 / 2 ^ 53) = 7 / 2"
  by (intro conjI baseSpeed_top) simp_all

text \<open>
  Claim C7, amended.  For a draw \<open>r2\<close> in \<open>[0, 1)\<close> the base speed of a spawned rock lies
  in \<open>[3, 5]\<close> and that of any other spawned object in \<open>[2, 3.5]\<close>.  It is the double sum
  \<open>3 + r2 * 2\<close>, or \<open>2 + r2 * 1.5\<close>, of the draw, and differs from the exact sum by at most
  \<open>2^-50\<close>: up to that rounding it is an affine image of the draw, as uniform as the
  draw is.  The stored speed is the double product of the base speed and the double
  quotient \<open>height / BASE_HEIGHT\<close> of the current geometry.
\<close>

theorem spawn_speed:
  assumes "0 \<le> r2" and "r2 < 1"
  shows "otype (newObject r1 r2 r3 d n) = pickType r1 \<and>
    (otype (newObject r1 r2 r3 d n) = Some rock \<longrightarrow>
       3 \<le> baseSpeed (pickType r1) r2 \<and> baseSpeed (pickType r1) r2 \<le> 5 \<and>
       baseSpeed (pickType r1) r2 = fl (3 + fl (r2 * 2)) \<and>
       \<bar>baseSpeed (pickType r1) r2 - (3 + r2 * 2)\<bar> \<le> 1 / 2 ^ 50) \<and>
    (otype (newObject r1 r2 r3 d n) \<noteq> Some rock \<longrightarrow>
       2 \<le> baseSpeed (pickType r1) r2 \<and> baseSpeed (pickType r1) r2 \<le> 3.5 \<and>
       baseSpeed (pickType r1) r2 = fl (2 + fl (r2 * 1.5)) \<and>
       \<bar>baseSpeed (pickType r1) r2 - (2 + r2 * 1.5)\<bar> \<le> 1 / 2 ^ 50) \<and>
    speed (newObject r1 r2 r3 d n) =
      fl (baseSpeed (pickType r1) r2 * fl (height d / BASE_HEIGHT)) \<and>
    objects (spawnObject r1 r2 r3 s) =
      objects s @ [newObject r1 r2 r3 (dims s) (objectIdRef s)]"
proof -
  have t: "otype (newObject r1 r2 r3 d n) = pickType r1"
    by (simp add: newObject_def Let_def)
  have 1: "otype (newObject r1 r2 r3 d n) = Some rock \<longrightarrow>
       3 \<le> baseSpeed (pickType r1) r2 \<and> baseSpeed (pickType r1) r2 \<le> 5 \<and>
       baseSpeed (pickType r1) r2 = fl (3 + fl (r2 * 2)) \<and>
       \<bar>baseSpeed (pickType r1) r2 - (3 + r2 * 2)\<bar> \<le> 1 / 2 ^ 50"
  proof
    assume "otype (newObject r1 r2 r3 d n) = Some rock"
    then have p: "pickType r1 = Some rock" by (simp add: t)
    show "3 \<le> baseSpeed (pickType r1) r2 \<and> baseSpeed (pickType r1) r2 \<le> 5 \<and>
       baseSpeed (pickType r1) r2 = fl (3 + fl (r2 * 2)) \<and>
       \<bar>baseSpeed (pickType r1) r2 - (3 + r2 * 2)\<bar> \<le> 1 / 2 ^ 50"
      unfolding p using baseSpeed_rock [OF assms] by (simp add: baseSpeed_def)
  qed
  have 2: "otype (newObject r1 r2 r3 d n) \<noteq> Some rock \<longrightarrow>
       2 \<le> baseSpeed (pickType r1) r2 \<and> baseSpeed (pickType r1) r2 \<le> 3.5 \<and>
       baseSpeed (pickType r1) r2 = fl (2 + fl (r2 * 1.5)) \<and>
       \<bar>baseSpeed (pickType r1) r2 - (2 + r2 * 1.5)\<bar> \<le> 1 / 2 ^ 50"
  proof
    assume "otype (newObject r1 r2 r3 d n) \<noteq> Some rock"
    then have p: "pickType r1 \<noteq> Some rock" by (simp add: t)
    show "2 \<le> baseSpeed (pickType r1) r2 \<and> baseSpeed (pickType r1) r2 \<le> 3.5 \<and>
       baseSpeed (pickType r1) r2 = fl (2 + fl (r2 * 1.5)) \<and>
       \<bar>baseSpeed (pickType r1) r2 - (2 + r2 * 1.5)\<bar> \<le> 1 / 2 ^ 50"
      using baseSpeed_other [OF assms p] p by (simp add: baseSpeed_def)
  qed
  have 3: "speed (newObject r1 r2 r3 d n) =
      fl (baseSpeed (pickType r1) r2 * fl (height d / BASE_HEIGHT))"
    and 4: "objects (spawnObject r1 r2 r3 s) =
      objects s @ [newObject r1 r2 r3 (dims s) (objectIdRef s)]"
    by (simp_all add: newObject_def spawnObject_def Let_def)
  from t 1 2 3 4 show ?thesis by blast
qed

theorem spawn_speed_witness:
  "(0::real) \<le> 1 / 2 \<and> (1 / 2 :: real) < 1 \<and>
   otype (newObject 0 (1 / 2) 0 (calculateDimensions 416 1200) 7) = Some rock \<and>
   baseSpeed (pickType 0) (1 / 2) = 4 \<and>
   speed (newObject 0 (1 / 2) 0 (calculateDimensions 416 1200) 7) = 2 \<and>
   otype (newObject (1 / 2) (1 / 2) 0 (calculateDimensions 416 1200) 7) = Some coin \<and>
   baseSpeed (pickType (1 / 2)) (1 / 2) = 11 / 4 \<and>
   speed (newObject (1 / 2) (1 / 2) 0 (calculateDimensions 416 1200) 7) = 11 / 8"
  using spawn_speed [of "1 / 2" 0 0 "calculateDimensions 416 1200" 7]
    spawn_speed [of "1 / 2" "1 / 2" 0 "calculateDimensions 416 1200" 7]
  by (simp add: run_defs)

section \<open>Scoring\<close>

text \<open>
  Claim C4.  The outcome of a coin adds exactly 10 to the score, that of a star 25 and
  that of a gem 50, and changes nothing else, so lives and phase stay; after a fresh
  start the three outcomes in a row give the score 85; and a tick of a running session
  on which no rock collides adds the points of the colliding objects to the score and
  leaves lives and phase as they are.
\<close>

theorem reward_outcomes:
  "applyOutcome (Some coin) s = s\<lparr> score := score s + 10 \<rparr> \<and>
   applyOutcome (Some star) s = s\<lparr> score := score s + 25 \<rparr> \<and>
   applyOutcome (Some gem) s = s\<lparr> score := score s + 50 \<rparr> \<and>
   (\<forall>ty \<in> {coin, star, gem}.
      lives (applyOutcome (Some ty) s) = lives s \<and>
      phase (applyOutcome (Some ty) s) = phase s) \<and>
   score (applyOutcome (Some gem) (applyOutcome (Some star)
            (applyOutcome (Some coin) (startGame t s0)))) = 85 \<and>
   (phase s = Running \<and> rocks (tickHits now r1 r2 r3 s) = 0 \<longrightarrow>
      score (gameLoop now r1 r2 r3 s) = score s + gain (tickHits now r1 r2 r3 s) \<and>
      lives (gameLoop now r1 r2 r3 s) = lives s \<and>
      phase (gameLoop now r1 r2 r3 s) = Running)"
proof -
  have "phase s = Running \<and> rocks (tickHits now r1 r2 r3 s) = 0 \<longrightarrow>
      score (gameLoop now r1 r2 r3 s) = score s + gain (tickHits now r1 r2 r3 s) \<and>
      lives (gameLoop now r1 r2 r3 s) = lives s \<and>
      phase (gameLoop now r1 r2 r3 s) = Running"
  proof
    assume a: "phase s = Running \<and> rocks (tickHits now r1 r2 r3 s) = 0"
    then have r: "phase s = Running" and z: "rocks (tickHits now r1 r2 r3 s) = 0" by simp_all
    from r have g: "gameStarted s" by (auto simp add: phase_def split: if_splits)
    show "score (gameLoop now r1 r2 r3 s) = score s + gain (tickHits now r1 r2 r3 s) \<and>
      lives (gameLoop now r1 r2 r3 s) = lives s \<and>
      phase (gameLoop now r1 r2 r3 s) = Running"
      using g by (simp add: gameLoop_tickHits [OF r] z Let_def phase_def trySpawn_def spawnObject_def)
  qed
  then show ?thesis
    by (simp add: applyOutcome_def startGame_def phase_def)
qed

theorem reward_outcomes_witness:
  "phase ((startGame 0 (initialState 1000 1200))\<lparr> objects := treats \<rparr>) = Running \<and>
   rocks (tickHits 500 0 0 0 ((startGame 0 (initialState 1000 1200))\<lparr> objects := treats \<rparr>)) = 0 \<and>
   score (gameLoop 500 0 0 0 ((startGame 0 (initialState 1000 1200))\<lparr> objects := treats \<rparr>)) = 85 \<and>
   lives (gameLoop 500 0 0 0 ((startGame 0 (initialState 1000 1200))\<lparr> objects := treats \<rparr>)) = 3 \<and>
   phase (gameLoop 500 0 0 0 ((startGame 0 (initialState 1000 1200))\<lparr> objects := treats \<rparr>)) = Running"
proof -
  let ?s = "(startGame 0 (initialState 1000 1200))\<lparr> objects := treats \<rparr>"
  have p: "phase ?s = Running" by (simp add: run_defs phase_def)
  have h: "tickHits 500 0 0 0 ?s = map fall [treats ! 0, treats ! 1, treats ! 3]"
    by (simp add: run_defs obs_defs treats_def)
  have z: "rocks (tickHits 500 0 0 0 ?s) = 0"
    unfolding h by (simp add: rocks_def fall_def treats_def)
  have g: "gain (tickHits 500 0 0 0 ?s) = 85"
    unfolding h by (simp add: gain_def points_def fall_def treats_def)
  have s: "score ?s = 0" "lives ?s = 3" by (simp_all add: startGame_def)
  from reward_outcomes [of ?s 0 "initialState 1000 1200" 500 0 0 0] p z g s show ?thesis by simp
qed

section \<open>The dimension provider\<close>

lemma speed_576:
  "playerSpeed (calculateDimensions 576 1000) = 3152519739159347 / 2 ^ 49"
  "fl (BASE_PLAYER_SPEED * spec_scale (fl (576 - 16)) 1000) = 3152519739159347 / 2 ^ 49"
proof -
  define H where "H = fl (fl (1000 * fl 0.6) / 600)"
  have ws: "fl (7 / 10) = 3152519739159347 / 2 ^ 52"
    by (subst fl_eval [of "- 1"]) (simp_all add: fl_evals)
  have "1000 * (1 / 2) \<le> 1000 * fl 0.6" using fl_06_ge by (intro mult_left_mono) simp_all
  then have "fl 500 \<le> fl (1000 * fl 0.6)" by (intro fl_mono) simp
  then have "3 / 4 \<le> fl (1000 * fl 0.6) / 600" by (simp add: fl_numeral)
  then have "fl (3 / 4) \<le> H" unfolding H_def by (rule fl_mono)
  then have hs: "3 / 4 \<le> H" using fl_dyadic [of 3 2] by simp
  have sc0: "scale_of 576 1000 = max (min (min (fl (7 / 10)) H) 1) MIN_SCALE"
    by (simp add: scale_of_def consts_defs Let_def fl_numeral H_def)
  have "min (fl (7 / 10)) H = fl (7 / 10)"
    using hs by (intro min_absorb1) (simp add: ws)
  then have sc: "scale_of 576 1000 = 3152519739159347 / 2 ^ 52"
    by (simp add: sc0 ws MIN_SCALE_eq)
  have p: "fl (3152519739159347 / 562949953421312) = 3152519739159347 / 2 ^ 49"
    using fl_dyadic [of 3152519739159347 49] by simp
  show "playerSpeed (calculateDimensions 576 1000) = 3152519739159347 / 2 ^ 49"
    by (simp add: dims_of_scale sc p)
  have ss: "spec_scale (fl (576 - 16)) 1000 = 3152519739159347 / 2 ^ 52"
    unfolding scale_of_spec [symmetric] by (rule sc)
  show "fl (BASE_PLAYER_SPEED * spec_scale (fl (576 - 16)) 1000) =
      3152519739159347 / 2 ^ 49"
    unfolding ss BASE_PLAYER_SPEED_def
    by (subst fl_eval [of 2]) (simp_all add: fl_evals)
qed

text \<open>
  Claim C8 as stated fails for the player speed, which the code does not floor: for an
  inner width of 576 and an inner height of 1000 the scale is the double 0.7 and the
  speed is the double 5.6, while the floor of their product clamped to the minimum 3
  is 5.
\<close>

theorem playerSpeed_not_floored:
  "playerSpeed (calculateDimensions 576 1000) = 3152519739159347 / 2 ^ 49 \<and>
   (5 :: real) < 3152519739159347 / 2 ^ 49 \<and>
   max 3 (of_int \<lfloor>fl (BASE_PLAYER_SPEED * spec_scale (fl (576 - 16)) 1000)\<rfloor>) = (5::real)"
  unfolding speed_576 by simp

text \<open>
  Claim C8, amended.  For every viewport the scale is
  \<open>max(MIN_SCALE, min(availableWidth / BASE_WIDTH, availableHeight * 0.6 / BASE_HEIGHT, 1))\<close>
  with \<open>availableWidth = innerWidth - 16\<close> and \<open>availableHeight = innerHeight\<close>, every
  operation in double precision.  Field width, field height, player size and object
  size are the floor of the double product of base and scale, clamped from below by
  280, 200, 20 and 16; the floor of the double product can be one less than the floor
  of the exact product.  The width is also capped by the available width, which makes
  no difference when the inner width is an integer, as in a browser.  The player speed
  is the double product of base and scale, not floored, clamped from below by 3.  So
  all five are positive.
\<close>

theorem calculateDimensions_amended:
  "scale_of w h = spec_scale (fl (w - 16)) h \<and>
   width (calculateDimensions w h) =
     max MIN_WIDTH (min (of_int \<lfloor>fl (BASE_WIDTH * spec_scale (fl (w - 16)) h)\<rfloor>)
                        (fl (w - 16))) \<and>
   (w \<in> \<int> \<and> \<bar>w\<bar> < 2 ^ 52 \<longrightarrow>
      width (calculateDimensions w h) =
        max MIN_WIDTH (of_int \<lfloor>fl (BASE_WIDTH * spec_scale (fl (w - 16)) h)\<rfloor>)) \<and>
   height (calculateDimensions w h) =
     max MIN_HEIGHT (of_int \<lfloor>fl (BASE_HEIGHT * spec_scale (fl (w - 16)) h)\<rfloor>) \<and>
   playerSize (calculateDimensions w h) =
     max 20 (of_int \<lfloor>fl (BASE_PLAYER_SIZE * spec_scale (fl (w - 16)) h)\<rfloor>) \<and>
   objectSize (calculateDimensions w h) =
     max 16 (of_int \<lfloor>fl (BASE_OBJECT_SIZE * spec_scale (fl (w - 16)) h)\<rfloor>) \<and>
   playerSpeed (calculateDimensions w h) =
     max 3 (fl (BASE_PLAYER_SPEED * spec_scale (fl (w - 16)) h)) \<and>
   280 \<le> width (calculateDimensions w h) \<and>
   200 \<le> height (calculateDimensions w h) \<and>
   20 \<le> playerSize (calculateDimensions w h) \<and>
   16 \<le> objectSize (calculateDimensions w h) \<and>
   3 \<le> playerSpeed (calculateDimensions w h)"
proof -
  note s = scale_of_spec [of w h]
  have 1: "width (calculateDimensions w h) =
     max MIN_WIDTH (min (of_int \<lfloor>fl (BASE_WIDTH * spec_scale (fl (w - 16)) h)\<rfloor>)
                        (fl (w - 16)))"
    "height (calculateDimensions w h) =
     max MIN_HEIGHT (of_int \<lfloor>fl (BASE_HEIGHT * spec_scale (fl (w - 16)) h)\<rfloor>)"
    "playerSize (calculateDimensions w h) =
     max 20 (of_int \<lfloor>fl (BASE_PLAYER_SIZE * spec_scale (fl (w - 16)) h)\<rfloor>)"
    "objectSize (calculateDimensions w h) =
     max 16 (of_int \<lfloor>fl (BASE_OBJECT_SIZE * spec_scale (fl (w - 16)) h)\<rfloor>)"
    "playerSpeed (calculateDimensions w h) =
     max 3 (fl (BASE_PLAYER_SPEED * spec_scale (fl (w - 16)) h))"
    by (simp_all add: calculateDimensions_def Let_def s)
  have 2: "w \<in> \<int> \<and> \<bar>w\<bar> < 2 ^ 52 \<longrightarrow>
      width (calculateDimensions w h) =
        max MIN_WIDTH (of_int \<lfloor>fl (BASE_WIDTH * spec_scale (fl (w - 16)) h)\<rfloor>)"
  proof
    assume a: "w \<in> \<int> \<and> \<bar>w\<bar> < 2 ^ 52"
    then obtain n where n: "w = of_int n" by (auto elim: Ints_cases)
    with a have "\<bar>n\<bar> < 2 ^ 52"
      by (simp add: of_int_abs [symmetric] of_int_less_numeral_power_cancel_iff
          del: of_int_abs)
    from width_cap_int [OF n this, of h]
    show "width (calculateDimensions w h) =
        max MIN_WIDTH (of_int \<lfloor>fl (BASE_WIDTH * spec_scale (fl (w - 16)) h)\<rfloor>)"
      by (simp add: s consts_defs)
  qed
  show ?thesis
    by (intro conjI s 1 2 calc_bounds)
qed

theorem calculateDimensions_amended_witness:
  "(430 :: real) \<in> \<int> \<and> \<bar>430 :: real\<bar> < 2 ^ 52 \<and>
   width (calculateDimensions 430 932) = 413 \<and>
   max MIN_WIDTH (of_int \<lfloor>fl (BASE_WIDTH * spec_scale (fl (430 - 16)) 932)\<rfloor>) = (413 :: real) \<and>
   \<lfloor>BASE_WIDTH * ((430 - 16) / BASE_WIDTH)\<rfloor> = 414 \<and>
   height (calculateDimensions 344 882) = 245 \<and>
   max MIN_HEIGHT (of_int \<lfloor>fl (BASE_HEIGHT * spec_scale (fl (344 - 16)) 882)\<rfloor>) = (245 :: real)"
proof -
  have i: "(430 :: real) \<in> \<int>" "\<bar>430 :: real\<bar> < 2 ^ 52" by simp_all
  from calculateDimensions_amended [of 430 932] i
  have "width (calculateDimensions 430 932) =
      max MIN_WIDTH (of_int \<lfloor>fl (BASE_WIDTH * spec_scale (fl (430 - 16)) 932)\<rfloor>)"
    by blast
  from this [symmetric] width_430
  have w: "max MIN_WIDTH (of_int \<lfloor>fl (BASE_WIDTH * spec_scale (fl (430 - 16)) 932)\<rfloor>) =
      (413 :: real)"
    by (rule trans)
  from calculateDimensions_amended [of 344 882]
  have "height (calculateDimensions 344 882) =
      max MIN_HEIGHT (of_int \<lfloor>fl (BASE_HEIGHT * spec_scale (fl (344 - 16)) 882)\<rfloor>)"
    by blast
  from this [symmetric] height_344
  have h: "max MIN_HEIGHT (of_int \<lfloor>fl (BASE_HEIGHT * spec_scale (fl (344 - 16)) 882)\<rfloor>) =
      (245 :: real)"
    by (rule trans)
  have e: "\<lfloor>BASE_WIDTH * ((430 - 16) / BASE_WIDTH)\<rfloor> = 414" by (simp add: consts_defs)
  show ?thesis
    by (intro conjI i w width_430 e height_344 h)
qed

section \<open>Spawn cadence\<close>








section \<open>The end of a session\<close>

lemma applyEvent_over:
  assumes "gameStarted s" "gameOver s" "\<not> isStart e"
  shows "gameStarted (applyEvent e s) \<and> gameOver (applyEvent e s) \<and> score (applyEvent e s) = score s \<and>
    lives (applyEvent e s) = lives s \<and> objects (applyEvent e s) = objects s \<and>
    player (applyEvent e s) = player s"
  using assms
  by (cases e)
     (simp_all add: gameLoop_over handleResize_def handleKeyDown_def handleKeyUp_def
        handleTouchStart_def handleTouchEnd_def Let_def)

lemma runEvents_over:
  assumes "gameStarted s" "gameOver s" "\<not> list_ex isStart evs"
  shows "gameStarted (runEvents evs s) \<and> gameOver (runEvents evs s) \<and> score (runEvents evs s) = score s \<and>
    lives (runEvents evs s) = lives s \<and> objects (runEvents evs s) = objects s \<and>
    player (runEvents evs s) = player s"
  using assms
proof (induction evs arbitrary: s)
  case Nil
  then show ?case by simp
next
  case (Cons e evs)
  from Cons.prems have e: "\<not> isStart e" and es: "\<not> list_ex isStart evs" by simp_all
  note st = applyEvent_over [OF Cons.prems(1) Cons.prems(2) e]
  from st have "gameStarted (applyEvent e s)" "gameOver (applyEvent e s)" by simp_all
  from Cons.IH [OF this es] st show ?case by simp
qed

text \<open>
  Claim C10.  On a tick of a running session the score grows by the points of all
  colliding objects, the surviving objects are the updated objects that do not collide,
  and the player is the moved player, whether or not the tick ends the session: the
  same tick from the same state with any other number of lives differs in \<open>lives\<close> and
  \<open>gameOver\<close> only.  Once the phase is \<open>GameOver\<close>, a tick returns the state as it is;
  resize, key-down, key-up, touch-start and touch-end events keep the phase, the score
  and the objects (resize also the player); and so after any run of events without the
  start command the phase is still \<open>GameOver\<close> and score, lives, objects and player are
  what they were.  Only \<open>startGame\<close> leaves the phase, and it resets score and objects.
\<close>

theorem gameOver_only_flag:
  assumes "phase s = Running"
  shows "score (gameLoop now r1 r2 r3 s) = score s + gain (tickHits now r1 r2 r3 s) \<and>
    objects (gameLoop now r1 r2 r3 s) = tickMisses now r1 r2 r3 s \<and>
    player (gameLoop now r1 r2 r3 s) = movePlayer s (player s) \<and>
    gameLoop now r1 r2 r3 (s\<lparr> lives := l \<rparr>) =
      (gameLoop now r1 r2 r3 s)
        \<lparr> lives := l - rocks (tickHits now r1 r2 r3 s),
          gameOver := 0 < rocks (tickHits now r1 r2 r3 s) \<and>
                      l - rocks (tickHits now r1 r2 r3 s) \<le> 0 \<rparr> \<and>
    (phase (gameLoop now r1 r2 r3 s) = GameOver \<longrightarrow>
       gameLoop now' r1' r2' r3' (gameLoop now r1 r2 r3 s) = gameLoop now r1 r2 r3 s \<and>
       score (handleResize w h (gameLoop now r1 r2 r3 s)) = score (gameLoop now r1 r2 r3 s) \<and>
       objects (handleResize w h (gameLoop now r1 r2 r3 s)) = objects (gameLoop now r1 r2 r3 s) \<and>
       player (handleResize w h (gameLoop now r1 r2 r3 s)) = player (gameLoop now r1 r2 r3 s) \<and>
       score (handleKeyDown k (gameLoop now r1 r2 r3 s)) = score (gameLoop now r1 r2 r3 s) \<and>
       objects (handleKeyDown k (gameLoop now r1 r2 r3 s)) = objects (gameLoop now r1 r2 r3 s) \<and>
       score (handleTouchStart dir (gameLoop now r1 r2 r3 s)) = score (gameLoop now r1 r2 r3 s) \<and>
       objects (handleTouchStart dir (gameLoop now r1 r2 r3 s)) =
         objects (gameLoop now r1 r2 r3 s) \<and>
       score (handleKeyUp k (gameLoop now r1 r2 r3 s)) = score (gameLoop now r1 r2 r3 s) \<and>
       objects (handleKeyUp k (gameLoop now r1 r2 r3 s)) = objects (gameLoop now r1 r2 r3 s) \<and>
       score (handleTouchEnd (gameLoop now r1 r2 r3 s)) = score (gameLoop now r1 r2 r3 s) \<and>
       objects (handleTouchEnd (gameLoop now r1 r2 r3 s)) = objects (gameLoop now r1 r2 r3 s) \<and>
       phase (handleResize w h (gameLoop now r1 r2 r3 s)) = GameOver \<and>
       phase (handleKeyDown k (gameLoop now r1 r2 r3 s)) = GameOver \<and>
       phase (handleKeyUp k (gameLoop now r1 r2 r3 s)) = GameOver \<and>
       phase (handleTouchStart dir (gameLoop now r1 r2 r3 s)) = GameOver \<and>
       phase (handleTouchEnd (gameLoop now r1 r2 r3 s)) = GameOver \<and>
       (\<not> list_ex isStart evs \<longrightarrow>
          phase (runEvents evs (gameLoop now r1 r2 r3 s)) = GameOver \<and>
          score (runEvents evs (gameLoop now r1 r2 r3 s)) = score (gameLoop now r1 r2 r3 s) \<and>
          lives (runEvents evs (gameLoop now r1 r2 r3 s)) = lives (gameLoop now r1 r2 r3 s) \<and>
          objects (runEvents evs (gameLoop now r1 r2 r3 s)) = objects (gameLoop now r1 r2 r3 s) \<and>
          player (runEvents evs (gameLoop now r1 r2 r3 s)) = player (gameLoop now r1 r2 r3 s)) \<and>
       phase (startGame t (gameLoop now r1 r2 r3 s)) = Running \<and>
       score (startGame t (gameLoop now r1 r2 r3 s)) = 0 \<and>
       objects (startGame t (gameLoop now r1 r2 r3 s)) = [])"
proof -
  let ?s' = "gameLoop now r1 r2 r3 s"
  from assms have r': "phase (s\<lparr> lives := l \<rparr>) = Running"
    by (simp add: phase_iff)
  have 1: "score ?s' = score s + gain (tickHits now r1 r2 r3 s)"
    and 2: "objects ?s' = tickMisses now r1 r2 r3 s"
    and 3: "player ?s' = movePlayer s (player s)"
    by (simp_all add: gameLoop_tickHits [OF assms] Let_def tickMisses_def trySpawn_frame
        movePlayer_trySpawn)
  have 4: "gameLoop now r1 r2 r3 (s\<lparr> lives := l \<rparr>) =
      ?s'\<lparr> lives := l - rocks (tickHits now r1 r2 r3 s),
          gameOver := 0 < rocks (tickHits now r1 r2 r3 s) \<and>
                      l - rocks (tickHits now r1 r2 r3 s) \<le> 0 \<rparr>"
    by (simp add: gameLoop_tickHits [OF assms] gameLoop_tickHits [OF r'] Let_def
        tickHits_lives_irrelevant trySpawn_lives_irrelevant movePlayer_def
        isMovingLeft_def isMovingRight_def)
  have 5: "phase ?s' = GameOver \<longrightarrow>
       gameLoop now' r1' r2' r3' ?s' = ?s' \<and>
       score (handleResize w h ?s') = score ?s' \<and>
       objects (handleResize w h ?s') = objects ?s' \<and>
       player (handleResize w h ?s') = player ?s' \<and>
       score (handleKeyDown k ?s') = score ?s' \<and>
       objects (handleKeyDown k ?s') = objects ?s' \<and>
       score (handleTouchStart dir ?s') = score ?s' \<and>
       objects (handleTouchStart dir ?s') = objects ?s' \<and>
       score (handleKeyUp k ?s') = score ?s' \<and>
       objects (handleKeyUp k ?s') = objects ?s' \<and>
       score (handleTouchEnd ?s') = score ?s' \<and>
       objects (handleTouchEnd ?s') = objects ?s' \<and>
       phase (handleResize w h ?s') = GameOver \<and>
       phase (handleKeyDown k ?s') = GameOver \<and>
       phase (handleKeyUp k ?s') = GameOver \<and>
       phase (handleTouchStart dir ?s') = GameOver \<and>
       phase (handleTouchEnd ?s') = GameOver"
    by (simp add: phase_iff gameLoop_over handleResize_def Let_def handleKeyDown_def
        handleKeyUp_def handleTouchStart_def handleTouchEnd_def)
  have 6: "phase ?s' = GameOver \<longrightarrow> \<not> list_ex isStart evs \<longrightarrow>
          phase (runEvents evs ?s') = GameOver \<and>
          score (runEvents evs ?s') = score ?s' \<and>
          lives (runEvents evs ?s') = lives ?s' \<and>
          objects (runEvents evs ?s') = objects ?s' \<and>
          player (runEvents evs ?s') = player ?s'"
    using runEvents_over [of ?s' evs] by (simp add: phase_iff)
  have 7: "phase (startGame t ?s') = Running \<and> score (startGame t ?s') = 0 \<and>
       objects (startGame t ?s') = []"
    by (simp add: startGame_def phase_iff)
  from 1 2 3 4 5 6 7 show ?thesis by blast
qed

theorem gameOver_only_flag_witness:
  "phase lastLife = Running \<and>
   phase (gameLoop 500 0 0 0 lastLife) = GameOver \<and>
   score (gameLoop 500 0 0 0 lastLife) = 60 \<and>
   lives (gameLoop 500 0 0 0 lastLife) = 0 \<and>
   objects (gameLoop 500 0 0 0 lastLife) =
     [\<lparr> oid = 2, ox = 400, oy = 103, speed = 3, otype = Some star \<rparr>] \<and>
   gameLoop 500 0 0 0 (lastLife\<lparr> lives := 3 \<rparr>) =
     (gameLoop 500 0 0 0 lastLife)\<lparr> lives := 2, gameOver := False \<rparr> \<and>
   gameLoop 516 0 0 0 (gameLoop 500 0 0 0 lastLife) = gameLoop 500 0 0 0 lastLife \<and>
   \<not> list_ex isStart idleEvents \<and>
   phase (runEvents idleEvents (gameLoop 500 0 0 0 lastLife)) = GameOver \<and>
   score (runEvents idleEvents (gameLoop 500 0 0 0 lastLife)) = 60 \<and>
   objects (runEvents idleEvents (gameLoop 500 0 0 0 lastLife)) =
     [\<lparr> oid = 2, ox = 400, oy = 103, speed = 3, otype = Some star \<rparr>]"
proof -
  have p: "phase lastLife = Running" by (simp add: lastLife_def run_defs phase_def)
  have h: "tickHits 500 0 0 0 lastLife = map fall [objects lastLife ! 0, objects lastLife ! 1, objects lastLife ! 3]"
    by (simp add: lastLife_def run_defs obs_defs)
  have z: "rocks (tickHits 500 0 0 0 lastLife) = 1"
    unfolding h by (simp add: rocks_def fall_def lastLife_def)
  have g: "gain (tickHits 500 0 0 0 lastLife) = 60"
    unfolding h by (simp add: gain_def points_def fall_def lastLife_def)
  have m: "tickMisses 500 0 0 0 lastLife = [\<lparr> oid = 2, ox = 400, oy = 103, speed = 3, otype = Some star \<rparr>]"
    by (simp add: lastLife_def tickMisses_def run_defs obs_defs)
  have o: "phase (gameLoop 500 0 0 0 lastLife) = GameOver" "lives (gameLoop 500 0 0 0 lastLife) = 0"
    by (simp_all add: gameLoop_tickHits [OF p] z Let_def phase_iff trySpawn_frame)
       (simp_all add: lastLife_def startGame_def)
  have s: "score lastLife = 0" by (simp add: lastLife_def startGame_def)
  have e: "\<not> list_ex isStart idleEvents" by (simp add: idleEvents_def)
  from gameOver_only_flag [OF p, where now = 500 and ?r1.0 = 0 and ?r2.0 = 0 and ?r3.0 = 0
      and l = 3 and now' = 516 and r1' = 0 and r2' = 0 and r3' = 0 and evs = idleEvents]
    p z g m o s e
  show ?thesis by simp
qed

section \<open>Runs of ticks\<close>

lemma above_mono: 
  assumes "above (Suc n) s" shows "above n s"
proof -
  have "\<And>a v :: real. 0 \<le> v \<Longrightarrow> a + real n * v \<le> a + (1 + real n) * v"
    by (simp add: algebra_simps)
  with assms show ?thesis
    unfolding above_def by (auto simp add: algebra_simps intro: order_trans)
qed

lemma gameLoop_idle:
  assumes run: "phase s = Running" and clock: "now - lastSpawnRef s \<le> 1000"
    and still: "\<not> isMovingLeft s" "\<not> isMovingRight s" and ab: "above (Suc 0) s"
  shows "gameLoop now r1 r2 r3 s = fallen (Suc 0) s"
proof -
  from clock have sp: "trySpawn now r1 r2 r3 s = s" by (simp add: trySpawn_def)
  from still have mv: "movePlayer s (player s) = player s" by (simp add: movePlayer_def)
  have u: "updated (dims s) (objects s) = map fall (objects s)"
    unfolding updated_def using ab
    by (intro filter_True) (auto simp add: above_def fall_def)
  have h: "hits (dims s) (player s) (map fall (objects s)) = []"
    unfolding hits_def using ab
    by (intro filter_False) (auto simp add: above_def fall_def checkCollision_def)
  have m: "misses (dims s) (player s) (map fall (objects s)) = map fall (objects s)"
    unfolding misses_def using ab
    by (intro filter_True) (auto simp add: above_def fall_def checkCollision_def)
  have th: "tickHits now r1 r2 r3 s = []"
    by (simp add: tickHits_def sp mv u h)
  from run have "\<not> gameOver s" by (simp add: phase_iff)
  then show ?thesis
    by (simp add: gameLoop_tickHits [OF run] sp mv u m th fallen_def fall_def)
qed

lemma fallen_fallen: "fallen n (fallen (Suc 0) s) = fallen (Suc n) s"
  by (simp add: fallen_def comp_def algebra_simps)

lemma above_fallen: "above (Suc n) s \<Longrightarrow> above n (fallen (Suc 0) s)"
  by (auto simp add: above_def fallen_def algebra_simps)

lemma above_Suc_one: "above (Suc n) s \<Longrightarrow> above (Suc 0) s"
  by (induction n) (auto dest: above_mono)

lemma ticks_idle:
  assumes "phase s = Running" "now - lastSpawnRef s \<le> 1000"
    "\<not> isMovingLeft s" "\<not> isMovingRight s" "above n s"
  shows "ticks (replicate n (now, r1, r2, r3)) s = fallen n s"
  using assms
proof (induction n arbitrary: s)
  case 0
  show ?case by (simp add: fallen_def)
next
  case (Suc n)
  from Suc.prems have a1: "above (Suc 0) s" by (auto dest: above_Suc_one)
  from Suc.prems a1 have g: "gameLoop now r1 r2 r3 s = fallen (Suc 0) s"
    by (intro gameLoop_idle) auto
  have "ticks (replicate n (now, r1, r2, r3)) (fallen (Suc 0) s) = fallen n (fallen (Suc 0) s)"
    using Suc.prems
    by (intro Suc.IH above_fallen)
       (simp_all add: fallen_def phase_iff isMovingLeft_def isMovingRight_def)
  then show ?case by (simp add: g fallen_fallen)
qed

lemma ticks_append: "ticks (xs @ ys) s = ticks ys (ticks xs s)"
  by (induction xs arbitrary: s) auto

lemma reachable_ticks:
  "reachable s \<Longrightarrow> list_all drawsOk run \<Longrightarrow> reachable (ticks run s)"
proof (induction run arbitrary: s)
  case Nil
  then show ?case by simp
next
  case (Cons a run)
  obtain now r1 r2 r3 where a: "a = (now, r1, r2, r3)" by (cases a) auto
  from Cons.prems have "reachable (gameLoop now r1 r2 r3 s)"
    by (intro reachable.tick) (simp_all add: a drawsOk_def)
  with Cons show ?case by (simp add: a)
qed

section \<open>Lives\<close>

lemma livesInv_gameLoop:
  assumes "livesInv s"
  shows "livesInv (gameLoop now r1 r2 r3 s)"
proof (cases "phase s = Running")
  case False
  with assms show ?thesis by (simp add: gameLoop_not_running)
next
  case True
  have nn: "0 \<le> rocks (tickHits now r1 r2 r3 s)" by (rule rocks_nonneg)
  from True have "gameStarted s" "\<not> gameOver s" by (simp_all add: phase_iff)
  with assms nn True show ?thesis
    by (auto simp add: livesInv_def gameLoop_lives gameLoop_frame)
qed

lemma reachable_livesInv: "reachable s \<Longrightarrow> livesInv s"
proof (induction rule: reachable.induct)
  case (mount innerWidth innerHeight)
  show ?case by (simp add: livesInv_def initialState_def Let_def)
next
  case (start s now)
  show ?case by (simp add: livesInv_def startGame_def)
next
  case (tick s r1 r2 r3 now)
  then show ?case by (simp add: livesInv_gameLoop)
next
  case (resize s innerWidth innerHeight)
  then show ?case by (auto simp add: livesInv_def handleResize_def Let_def)
next
  case (keyDown s k)
  then show ?case by (simp add: livesInv_def handleKeyDown_def)
next
  case (keyUp s k)
  then show ?case by (simp add: livesInv_def handleKeyUp_def)
next
  case (touchStart s direction)
  then show ?case by (simp add: livesInv_def handleTouchStart_def)
next
  case (touchEnd s)
  then show ?case by (simp add: livesInv_def handleTouchEnd_def)
qed

lemma reachable_fresh: "reachable fresh"
  unfolding fresh_def by (intro reachable.start reachable.mount)

lemma fresh_eq:
  "fresh = \<lparr> dims = \<lparr> width = 800, height = 600, playerSize = 40, objectSize = 30,
                     playerSpeed = 8 \<rparr>,
             gameStarted = True, gameOver = False, score = 0, lives = 3,
             player = \<lparr> px = 380, py = 540, pwidth = 40, pheight = 40 \<rparr>,
             objects = [], keys = {}, touchDirection = None, objectIdRef = 0,
             lastSpawnRef = 0 \<rparr>"
  by (simp add: fresh_def run_defs)

lemma fourRocks_state:
  "ticks fourRocks fresh =
     fresh\<lparr> objects :=
        [\<lparr> oid = 0, ox = 385, oy = - (85 / 8), speed = 155 / 32, otype = Some rock \<rparr>,
         \<lparr> oid = 1, ox = 385, oy = - (123 / 8), speed = 39 / 8, otype = Some rock \<rparr>,
         \<lparr> oid = 2, ox = 385, oy = - (161 / 8), speed = 79 / 16, otype = Some rock \<rparr>,
         \<lparr> oid = 3, ox = 385, oy = - (801 / 32), speed = 159 / 32, otype = Some rock \<rparr>],
       objectIdRef := 4, lastSpawnRef := 4004 \<rparr>"
  unfolding fourRocks_def fresh_eq by (simp add: run_defs)

lemma brink_state:
  "ticks brink fresh =
     fresh\<lparr> objects :=
        [\<lparr> oid = 0, ox = 385, oy = 16245 / 32, speed = 155 / 32, otype = Some rock \<rparr>,
         \<lparr> oid = 1, ox = 385, oy = 2025 / 4, speed = 39 / 8, otype = Some rock \<rparr>,
         \<lparr> oid = 2, ox = 385, oy = 8131 / 16, speed = 79 / 16, otype = Some rock \<rparr>,
         \<lparr> oid = 3, ox = 385, oy = 4053 / 8, speed = 159 / 32, otype = Some rock \<rparr>],
       objectIdRef := 4, lastSpawnRef := 4004 \<rparr>"
proof -
  let ?s4 = "ticks fourRocks fresh"
  have "ticks (replicate 107 (4004, 0, 0, 0)) ?s4 = fallen 107 ?s4"
    by (intro ticks_idle; simp only: fourRocks_state)
       (simp_all add: fresh_eq phase_iff isMovingLeft_def isMovingRight_def above_def)
  then have "ticks brink fresh = fallen 107 ?s4"
    by (simp add: brink_def ticks_append)
  also have "\<dots> = fresh\<lparr> objects :=
        [\<lparr> oid = 0, ox = 385, oy = 16245 / 32, speed = 155 / 32, otype = Some rock \<rparr>,
         \<lparr> oid = 1, ox = 385, oy = 2025 / 4, speed = 39 / 8, otype = Some rock \<rparr>,
         \<lparr> oid = 2, ox = 385, oy = 8131 / 16, speed = 79 / 16, otype = Some rock \<rparr>,
         \<lparr> oid = 3, ox = 385, oy = 4053 / 8, speed = 159 / 32, otype = Some rock \<rparr>],
       objectIdRef := 4, lastSpawnRef := 4004 \<rparr>"
    by (simp only: fourRocks_state) (simp add: fallen_def)
  finally show ?thesis .
qed

lemma reachable_brink: "reachable (ticks brink fresh)"
  by (intro reachable_ticks reachable_fresh)
     (simp add: brink_def fourRocks_def drawsOk_def list_all_iff)

lemma overkill_state:
  "ticks overkill fresh =
     fresh\<lparr> gameOver := True, lives := - 1, objectIdRef := 4, lastSpawnRef := 4004 \<rparr>"
proof -
  have "ticks overkill fresh = gameLoop 4004 0 0 0 (ticks brink fresh)"
    by (simp add: overkill_def ticks_append)
  also have "\<dots> = fresh\<lparr> gameOver := True, lives := - 1, objectIdRef := 4, lastSpawnRef := 4004 \<rparr>"
    by (simp only: brink_state) (simp add: fresh_eq run_defs)
  finally show ?thesis .
qed

lemma reachable_overkill: "reachable (ticks overkill fresh)"
  by (intro reachable_ticks reachable_fresh)
     (simp add: overkill_def brink_def fourRocks_def drawsOk_def list_all_iff)

text \<open>
  Claim C1 as stated fails: lives is not clamped at 0.  In the session \<open>overkill\<close> four
  rocks overlap the player on the same tick, each takes a life, and the three lives
  become -1.
\<close>

theorem lives_negative:
  "reachable (ticks overkill fresh) \<and> lives (ticks overkill fresh) = - 1"
  using reachable_overkill by (simp add: overkill_state)

text \<open>
  Claim C1, amended.  In every reachable state lives is at most 3, and lives is at
  most 0 exactly when the phase is \<open>GameOver\<close>.  A tick of a running session takes one
  life for each rock that collides on it (so lives can pass below 0 when several
  collide on the last tick), and the state after the tick again has lives at most 0
  exactly when its phase is \<open>GameOver\<close>: the phase changes on the tick on which lives
  first reaches 0 or less.  A tick in the phase \<open>GameOver\<close> changes nothing, so the
  transition happens once.
\<close>

theorem lives_amended:
  assumes "reachable s"
  shows "lives s \<le> 3 \<and>
    (lives s \<le> 0 \<longleftrightarrow> phase s = GameOver) \<and>
    lives (gameLoop now r1 r2 r3 s) =
      lives s - (if phase s = Running then rocks (tickHits now r1 r2 r3 s) else 0) \<and>
    (lives (gameLoop now r1 r2 r3 s) \<le> 0 \<longleftrightarrow> phase (gameLoop now r1 r2 r3 s) = GameOver) \<and>
    (phase s = GameOver \<longrightarrow> gameLoop now r1 r2 r3 s = s)"
proof -
  from assms have i: "livesInv s" by (rule reachable_livesInv)
  then have i': "livesInv (gameLoop now r1 r2 r3 s)" by (rule livesInv_gameLoop)
  from i have "lives s \<le> 3" "lives s \<le> 0 \<longleftrightarrow> phase s = GameOver"
    by (auto simp add: livesInv_def phase_iff)
  moreover from i' have "lives (gameLoop now r1 r2 r3 s) \<le> 0 \<longleftrightarrow>
      phase (gameLoop now r1 r2 r3 s) = GameOver"
    by (auto simp add: livesInv_def phase_iff)
  moreover have "phase s = GameOver \<longrightarrow> gameLoop now r1 r2 r3 s = s"
    by (simp add: gameLoop_not_running)
  ultimately show ?thesis by (simp add: gameLoop_lives)
qed

theorem lives_amended_witness:
  "reachable (ticks brink fresh) \<and>
   lives (ticks brink fresh) = 3 \<and>
   phase (ticks brink fresh) = Running \<and>
   rocks (tickHits 4004 0 0 0 (ticks brink fresh)) = 4 \<and>
   lives (gameLoop 4004 0 0 0 (ticks brink fresh)) = - 1 \<and>
   phase (gameLoop 4004 0 0 0 (ticks brink fresh)) = GameOver \<and>
   gameLoop 4020 0 0 0 (gameLoop 4004 0 0 0 (ticks brink fresh)) =
     gameLoop 4004 0 0 0 (ticks brink fresh)"
proof -
  let ?s = "ticks brink fresh"
  note r = reachable_brink
  have r': "reachable (gameLoop 4004 0 0 0 ?s)"
    using r by (intro reachable.tick) simp_all
  have l: "lives ?s = 3" "phase ?s = Running"
    by (simp_all only: brink_state) (simp_all add: fresh_eq phase_iff)
  have h: "rocks (tickHits 4004 0 0 0 ?s) = 4"
    by (simp only: brink_state) (simp add: fresh_eq run_defs obs_defs)
  from lives_amended [OF r, of 4004 0 0 0] l h
  have a: "lives (gameLoop 4004 0 0 0 ?s) = - 1" "phase (gameLoop 4004 0 0 0 ?s) = GameOver"
    by auto
  from lives_amended [OF r', of 4020 0 0 0] a
  have b: "gameLoop 4020 0 0 0 (gameLoop 4004 0 0 0 ?s) = gameLoop 4004 0 0 0 ?s"
    by simp
  from r l h a b show ?thesis by simp
qed

section \<open>Containment of the player\<close>

lemma centered_contained:
  "0 \<le> px (centeredPlayer (calculateDimensions w h)) \<and>
   px (centeredPlayer (calculateDimensions w h)) \<le>
     width (calculateDimensions w h) - playerSize (calculateDimensions w h)"
  using calc_bounds [of w h] by (simp add: centeredPlayer_def)

lemma movePlayer_frame:
  "py (movePlayer s p) = py p" "pwidth (movePlayer s p) = pwidth p"
  "pheight (movePlayer s p) = pheight p"
  by (simp_all add: movePlayer_def Let_def)

lemma movePlayer_px:
  "px (movePlayer s p) =
     (if isMovingRight s
      then min (width (dims s) - playerSize (dims s)) (px p + playerSpeed (dims s))
      else if isMovingLeft s then max 0 (px p - playerSpeed (dims s)) else px p)"
  by (simp add: movePlayer_def Let_def)

lemma movePlayer_nonneg:
  assumes "0 \<le> px p" "dims s = calculateDimensions w h"
  shows "0 \<le> px (movePlayer s p)"
  using assms calc_bounds [of w h] by (simp add: movePlayer_px)

lemma playerInv_gameLoop:
  assumes "playerInv s"
  shows "playerInv (gameLoop now r1 r2 r3 s)"
proof (cases "phase s = Running")
  case False
  with assms show ?thesis by (simp add: gameLoop_not_running)
next
  case True
  from assms obtain w h where d: "dims s = calculateDimensions w h"
    by (auto simp add: playerInv_def)
  from assms have "0 \<le> px (player s)" by (simp add: playerInv_def)
  then have "0 \<le> px (movePlayer s (player s))" using d by (rule movePlayer_nonneg)
  moreover from True have "gameStarted s" by (simp add: phase_iff)
  ultimately show ?thesis using d True
    by (auto simp add: playerInv_def gameLoop_frame gameLoop_player)
qed

lemma reachable_playerInv: "reachable s \<Longrightarrow> playerInv s"
proof (induction rule: reachable.induct)
  case (mount innerWidth innerHeight)
  show ?case
    using centered_contained [of innerWidth innerHeight]
    by (auto simp add: playerInv_def initialState_def Let_def)
next
  case (start s now)
  then obtain w h where d: "dims s = calculateDimensions w h"
    by (auto simp add: playerInv_def)
  with centered_contained [of w h] show ?case
    by (auto simp add: playerInv_def startGame_def)
next
  case (tick s r1 r2 r3 now)
  then show ?case by (simp add: playerInv_gameLoop)
next
  case (resize s innerWidth innerHeight)
  with centered_contained [of innerWidth innerHeight] show ?case
    by (auto simp add: playerInv_def handleResize_def Let_def)
next
  case (keyDown s k)
  then show ?case by (simp add: playerInv_def handleKeyDown_def)
next
  case (keyUp s k)
  then show ?case by (simp add: playerInv_def handleKeyUp_def)
next
  case (touchStart s direction)
  then show ?case by (simp add: playerInv_def handleTouchStart_def)
next
  case (touchEnd s)
  then show ?case by (simp add: playerInv_def handleTouchEnd_def)
qed

text \<open>
  What the tick does keep: in every reachable state the player's x is at least 0, and
  it lies in \<open>[0, width - playerSize]\<close> before the start and right after \<open>startGame\<close>; a
  tick keeps it in these bounds when it is in them; and a tick of a running session
  with the move-right intent puts it in them from wherever it is.
\<close>

lemma containment_kept:
  assumes "reachable s"
  shows "0 \<le> px (player s) \<and>
    (phase s = NotStarted \<longrightarrow> contained s) \<and>
    contained (startGame now s) \<and>
    (contained s \<longrightarrow> contained (gameLoop now r1 r2 r3 s)) \<and>
    (phase s = Running \<and> isMovingRight s \<longrightarrow> contained (gameLoop now r1 r2 r3 s))"
proof -
  from assms have i: "playerInv s" by (rule reachable_playerInv)
  then obtain w h where d: "dims s = calculateDimensions w h"
    by (auto simp add: playerInv_def)
  note b = calc_bounds [of w h] centered_contained [of w h]
  from i have 1: "0 \<le> px (player s)" by (simp add: playerInv_def)
  from i d b have 2: "phase s = NotStarted \<longrightarrow> contained s"
    by (auto simp add: playerInv_def phase_iff contained_def)
  from d b have 3: "contained (startGame now s)"
    by (simp add: contained_def startGame_def)
  from 1 d b have 4: "contained s \<longrightarrow> contained (gameLoop now r1 r2 r3 s)"
    by (auto simp add: contained_def gameLoop_frame gameLoop_player movePlayer_px)
  from 1 d b have 5: "phase s = Running \<and> isMovingRight s \<longrightarrow>
      contained (gameLoop now r1 r2 r3 s)"
    by (auto simp add: contained_def gameLoop_frame gameLoop_player movePlayer_px)
  from 1 2 3 4 5 show ?thesis by blast
qed

text \<open>
  Claim C2 is not met by the code.  The tick clamps the player only inside the two
  branches that move it, and a resize re-centers the player only before the start.  In
  the session \<open>narrowed\<close> the viewport shrinks from 1000 to 316 wide right after the
  start; the field is then 300 wide and the player 20, so x must be at most 280.  After
  the next tick, with no key held and no touch, the state is reachable, the player's x
  is still 380, and the player is not contained in the field.
\<close>

theorem not_reclamped:
  "reachable (gameLoop 16 0 0 0 narrowed) \<and> \<not> contained (gameLoop 16 0 0 0 narrowed) \<and>
   px (player (gameLoop 16 0 0 0 narrowed)) = 380 \<and>
   width (dims (gameLoop 16 0 0 0 narrowed)) - playerSize (dims (gameLoop 16 0 0 0 narrowed)) = 280"
proof -
  have "reachable (gameLoop 16 0 0 0 narrowed)"
    unfolding narrowed_def
    by (intro reachable.tick reachable.resize reachable_fresh) simp_all
  moreover have "px (player (gameLoop 16 0 0 0 narrowed)) = 380"
    and "width (dims (gameLoop 16 0 0 0 narrowed)) -
         playerSize (dims (gameLoop 16 0 0 0 narrowed)) = 280"
    by (simp_all add: narrowed_def fresh_eq handleResize_def run_defs)
  ultimately show ?thesis by (simp add: contained_def)
qed

theorem not_reclamped_witness:
  "width (dims (gameLoop 16 0 0 0 narrowed)) - playerSize (dims (gameLoop 16 0 0 0 narrowed))
     < px (player (gameLoop 16 0 0 0 narrowed)) \<and>
   phase narrowed = Running \<and> \<not> isMovingLeft narrowed \<and> \<not> isMovingRight narrowed \<and>
   width (dims narrowed) = 300 \<and> playerSize (dims narrowed) = 20 \<and>
   px (player narrowed) = 380"
proof -
  have "phase narrowed = Running" "\<not> isMovingLeft narrowed" "\<not> isMovingRight narrowed"
    "width (dims narrowed) = 300" "playerSize (dims narrowed) = 20"
    "px (player narrowed) = 380"
    by (simp_all add: narrowed_def fresh_eq handleResize_def phase_iff isMovingLeft_def
        isMovingRight_def Let_def dims_316)
  with not_reclamped show ?thesis by simp
qed

section \<open>Resize in a running session\<close>

lemma onField_eq:
  "onField = fresh\<lparr> objects :=
        [\<lparr> oid = 0, ox = 0, oy = 7149 / 32, speed = 159 / 32, otype = Some rock \<rparr>],
      objectIdRef := 1, lastSpawnRef := 1001 \<rparr>"
proof -
  let ?s1 = "fresh\<lparr> objects :=
        [\<lparr> oid = 0, ox = 0, oy = - (801 / 32), speed = 159 / 32, otype = Some rock \<rparr>],
      objectIdRef := 1, lastSpawnRef := 1001 \<rparr>"
  have 1: "gameLoop 1001 0 (63/64) 0 fresh = ?s1"
    by (simp add: fresh_eq run_defs)
  have "ticks (replicate 50 (1001, 0, 0, 0)) ?s1 = fallen 50 ?s1"
    by (intro ticks_idle)
       (simp_all add: fresh_eq phase_iff isMovingLeft_def isMovingRight_def above_def)
  then show ?thesis
    by (simp add: onField_def oneRock_def 1 fallen_def)
qed

lemma reachable_onField: "reachable onField"
  unfolding onField_def
  by (intro reachable_ticks reachable_fresh)
     (simp add: oneRock_def drawsOk_def list_all_iff)

lemma nearPlayer_eq:
  "nearPlayer = fresh\<lparr> objects :=
        [\<lparr> oid = 0, ox = 385, oy = 4053 / 8, speed = 159 / 32, otype = Some rock \<rparr>],
      objectIdRef := 1, lastSpawnRef := 1001 \<rparr>"
proof -
  let ?s1 = "fresh\<lparr> objects :=
        [\<lparr> oid = 0, ox = 385, oy = - (801 / 32), speed = 159 / 32, otype = Some rock \<rparr>],
      objectIdRef := 1, lastSpawnRef := 1001 \<rparr>"
  have 1: "gameLoop 1001 0 (63/64) (1/2) fresh = ?s1"
    by (simp add: fresh_eq run_defs)
  have "ticks (replicate 107 (1001, 0, 0, 0)) ?s1 = fallen 107 ?s1"
    by (intro ticks_idle)
       (simp_all add: fresh_eq phase_iff isMovingLeft_def isMovingRight_def above_def)
  then show ?thesis
    by (simp add: nearPlayer_def nearRock_def 1 fallen_def)
qed

lemma reachable_nearPlayer: "reachable nearPlayer"
  unfolding nearPlayer_def
  by (intro reachable_ticks reachable_fresh)
     (simp add: nearRock_def drawsOk_def list_all_iff)

text \<open>
  Claim C9 as stated fails: the tick tests the objects against the current geometry.
  The rock of \<open>onField\<close> stays on the field on the next tick, but is removed on it after a
  resize to a field of height 210; the rock of \<open>nearPlayer\<close> hits the player on the next
  tick and takes a life, but misses it after a resize to an object size of 26.
\<close>

theorem resize_changes_outcomes:
  "reachable onField \<and> phase onField = Running \<and>
   objects (gameLoop 1017 0 0 0 onField) =
     [\<lparr> oid = 0, ox = 0, oy = 1827 / 8, speed = 159 / 32, otype = Some rock \<rparr>] \<and>
   objects (gameLoop 1017 0 0 0 (handleResize 296 1200 onField)) = [] \<and>
   reachable nearPlayer \<and> phase nearPlayer = Running \<and>
   objects (gameLoop 1017 0 0 0 nearPlayer) = [] \<and>
   lives (gameLoop 1017 0 0 0 nearPlayer) = 2 \<and>
   objects (gameLoop 1017 0 0 0 (handleResize 716 1200 nearPlayer)) =
     [\<lparr> oid = 0, ox = 385, oy = 16371 / 32, speed = 159 / 32, otype = Some rock \<rparr>] \<and>
   lives (gameLoop 1017 0 0 0 (handleResize 716 1200 nearPlayer)) = 3"
proof -
  have "objects (gameLoop 1017 0 0 0 onField) =
     [\<lparr> oid = 0, ox = 0, oy = 1827 / 8, speed = 159 / 32, otype = Some rock \<rparr>]"
    by (simp add: onField_eq fresh_eq run_defs)
  moreover have "objects (gameLoop 1017 0 0 0 (handleResize 296 1200 onField)) = []"
    by (simp add: onField_eq fresh_eq handleResize_def run_defs)
  moreover have "phase onField = Running" "phase nearPlayer = Running"
    by (simp_all add: onField_eq nearPlayer_eq fresh_eq phase_iff)
  moreover have "objects (gameLoop 1017 0 0 0 nearPlayer) = []"
    "lives (gameLoop 1017 0 0 0 nearPlayer) = 2"
    by (simp_all add: nearPlayer_eq fresh_eq run_defs)
  moreover have "objects (gameLoop 1017 0 0 0 (handleResize 716 1200 nearPlayer)) =
     [\<lparr> oid = 0, ox = 385, oy = 16371 / 32, speed = 159 / 32, otype = Some rock \<rparr>]"
    "lives (gameLoop 1017 0 0 0 (handleResize 716 1200 nearPlayer)) = 3"
    by (simp_all add: nearPlayer_eq fresh_eq handleResize_def run_defs)
  ultimately show ?thesis using reachable_onField reachable_nearPlayer by simp
qed

text \<open>
  Claim C9, amended.  A resize keeps the list of objects as it is, with all
  coordinates and speeds.  On the next tick of a running session every object moves
  down by its own speed; an object is then removed when its y is not below the height
  of the new geometry, and it collides when its square of the new object size overlaps
  the player, whose y, width and height are still those from the start and whose x is
  moved and clamped with the new geometry.  An object spawned on that tick is built
  from the new geometry.
\<close>

theorem resize_keeps_objects:
  "objects (handleResize w h s) = objects s \<and>
   (phase s = Running \<longrightarrow>
      objects (gameLoop now r1 r2 r3 (handleResize w h s)) =
        filter (\<lambda>obj. \<not> checkCollision (calculateDimensions w h) obj
                         (movePlayer (handleResize w h s) (player s)))
          (filter (\<lambda>obj. oy obj < height (calculateDimensions w h))
             (map fall
                (objects s @
                 (if now - lastSpawnRef s > 1000
                  then [newObject r1 r2 r3 (calculateDimensions w h) (objectIdRef s)]
                  else [])))) \<and>
      py (player (gameLoop now r1 r2 r3 (handleResize w h s))) = py (player s) \<and>
      pwidth (player (gameLoop now r1 r2 r3 (handleResize w h s))) = pwidth (player s) \<and>
      pheight (player (gameLoop now r1 r2 r3 (handleResize w h s))) = pheight (player s))"
proof -
  have 1: "objects (handleResize w h s) = objects s"
    by (simp add: handleResize_def Let_def)
  have 2: "phase s = Running \<longrightarrow>
      objects (gameLoop now r1 r2 r3 (handleResize w h s)) =
        filter (\<lambda>obj. \<not> checkCollision (calculateDimensions w h) obj
                         (movePlayer (handleResize w h s) (player s)))
          (filter (\<lambda>obj. oy obj < height (calculateDimensions w h))
             (map fall
                (objects s @
                 (if now - lastSpawnRef s > 1000
                  then [newObject r1 r2 r3 (calculateDimensions w h) (objectIdRef s)]
                  else [])))) \<and>
      py (player (gameLoop now r1 r2 r3 (handleResize w h s))) = py (player s) \<and>
      pwidth (player (gameLoop now r1 r2 r3 (handleResize w h s))) = pwidth (player s) \<and>
      pheight (player (gameLoop now r1 r2 r3 (handleResize w h s))) = pheight (player s)"
  proof
    assume r: "phase s = Running"
    then have g: "gameStarted s" "\<not> gameOver s" by (simp_all add: phase_iff)
    let ?s' = "handleResize w h s"
    from g have e: "?s' = s\<lparr> dims := calculateDimensions w h \<rparr>"
      by (simp add: handleResize_def Let_def)
    from g have r': "phase ?s' = Running" by (simp add: e phase_iff)
    show "objects (gameLoop now r1 r2 r3 ?s') =
        filter (\<lambda>obj. \<not> checkCollision (calculateDimensions w h) obj
                         (movePlayer ?s' (player s)))
          (filter (\<lambda>obj. oy obj < height (calculateDimensions w h))
             (map fall
                (objects s @
                 (if now - lastSpawnRef s > 1000
                  then [newObject r1 r2 r3 (calculateDimensions w h) (objectIdRef s)]
                  else [])))) \<and>
      py (player (gameLoop now r1 r2 r3 ?s')) = py (player s) \<and>
      pwidth (player (gameLoop now r1 r2 r3 ?s')) = pwidth (player s) \<and>
      pheight (player (gameLoop now r1 r2 r3 ?s')) = pheight (player s)"
      unfolding gameLoop_player gameLoop_tickHits [OF r']
      by (simp add: r' Let_def movePlayer_trySpawn movePlayer_frame trySpawn_frame)
         (simp add: e misses_def updated_def trySpawn_def spawnObject_def)
  qed
  from 1 2 show ?thesis by blast
qed

theorem resize_keeps_objects_witness:
  "phase lastLife = Running \<and>
   objects (handleResize 296 1200 lastLife) = objects lastLife \<and>
   objects (gameLoop 500 0 0 0 (handleResize 296 1200 lastLife)) =
     [\<lparr> oid = 2, ox = 400, oy = 103, speed = 3, otype = Some star \<rparr>] \<and>
   py (player (gameLoop 500 0 0 0 (handleResize 296 1200 lastLife))) = 540"
proof -
  have p: "phase lastLife = Running" by (simp add: lastLife_def run_defs phase_def)
  have d: "calculateDimensions 296 1200 =
      \<lparr> width = 280, height = 210, playerSize = 20, objectSize = 16, playerSpeed = 3 \<rparr>"
    by (simp add: run_defs)
  have l: "lastSpawnRef lastLife = 0" "py (player lastLife) = 540"
    by (simp_all add: lastLife_def startGame_def initialState_def Let_def centeredPlayer_def d)
       (simp add: run_defs)
  have o: "objects lastLife =
      [\<lparr> oid = 0, ox = 380, oy = 520, speed = 2, otype = Some coin \<rparr>,
       \<lparr> oid = 1, ox = 390, oy = 530, speed = 3, otype = Some rock \<rparr>,
       \<lparr> oid = 2, ox = 400, oy = 100, speed = 3, otype = Some star \<rparr>,
       \<lparr> oid = 3, ox = 370, oy = 525, speed = 5/2, otype = Some gem \<rparr>]"
    by (simp add: lastLife_def)
  have m: "movePlayer (handleResize 296 1200 lastLife) (player lastLife) =
      \<lparr> px = 380, py = 540, pwidth = 40, pheight = 40 \<rparr>"
    by (simp add: lastLife_def handleResize_def run_defs)
  from resize_keeps_objects [of 296 1200 lastLife 500 0 0 0] p
  show ?thesis
    by (simp add: d l o m fall_def checkCollision_def)
qed

end
